theory Spec2Isabelle
  imports Main
begin

chapter \<open>RssBot / Evox: per-service connection routing and priority admission\<close>

text \<open>
  A shallow embedding of the routing core of the repository:
  \<^item> \<^verbatim>\<open>src/rssbot/models/service_registry.py\<close>: the service record and its effective
    connection method;
  \<^item> \<^verbatim>\<open>src/rssbot/discovery/registry.py\<close>, \<^verbatim>\<open>cached_registry.py\<close>: the persistent registry
    and the Redis cache in front of it;
  \<^item> \<^verbatim>\<open>src/rssbot/discovery/proxy.py\<close>: the per-call dispatcher with router/REST fallback;
  \<^item> \<^verbatim>\<open>evox/core/queue.py\<close>, \<^verbatim>\<open>evox/core/scheduler.py\<close>: the priority queue and the
    fan-out primitives.
  The specification calls the in-process mode "Local" and the HTTP mode "Remote"; the code
  calls them \<^verbatim>\<open>ROUTER\<close> and \<^verbatim>\<open>REST\<close>. The definitions keep the names of the code.
\<close>

section \<open>Service records (\<^verbatim>\<open>models/service_registry.py\<close>)\<close>

datatype ConnectionMethod = ROUTER | REST | DISABLED

text \<open>The value of an enum member, and the enum's constructor from a value
  (\<^verbatim>\<open>ConnectionMethod("router")\<close>); \<open>None\<close> stands for the \<^verbatim>\<open>ValueError\<close> Python raises
  on any other string.\<close>

fun method_value :: "ConnectionMethod \<Rightarrow> string" where
  "method_value ROUTER = ''router''"
| "method_value REST = ''rest''"
| "method_value DISABLED = ''disabled''"

definition ConnectionMethod_of :: "string \<Rightarrow> ConnectionMethod option" where
  "ConnectionMethod_of s =
     (if s = ''router'' then Some ROUTER
      else if s = ''rest'' then Some REST
      else if s = ''disabled'' then Some DISABLED
      else None)"

text \<open>
  \<^verbatim>\<open>RegisteredService\<close>. The columns that no modelled function reads (\<^verbatim>\<open>id\<close>, the two
  audit timestamps, \<^verbatim>\<open>display_name\<close>, \<^verbatim>\<open>description\<close>, \<^verbatim>\<open>port\<close>, \<^verbatim>\<open>auto_discovered\<close>,
  \<^verbatim>\<open>priority\<close>) are left out. \<^verbatim>\<open>health_status\<close> is a free string in the code, and so it is
  here. Timestamps are natural numbers (ticks of the clock).
\<close>

record RegisteredService =
  name :: string
  connection_method :: ConnectionMethod
  rest_url :: "string option"
  is_active :: bool
  last_health_check :: "nat option"
  health_status :: string
  has_router :: bool
  router_path :: "string option"

text \<open>Python's truth value of an \<^verbatim>\<open>Optional[str]\<close>: \<^verbatim>\<open>None\<close> and the empty string are false.\<close>

fun truthy :: "string option \<Rightarrow> bool" where
  "truthy None = False"
| "truthy (Some s) = (s \<noteq> [])"

text \<open>\<^verbatim>\<open>RegisteredService.is_healthy\<close> and
  \<^verbatim>\<open>RegisteredService.get_effective_connection_method\<close>, with the source's four early
  returns in the source's order.\<close>

definition is_healthy :: "RegisteredService \<Rightarrow> bool" where
  "is_healthy r = (health_status r = ''healthy'' \<and> is_active r)"

definition get_effective_connection_method :: "RegisteredService \<Rightarrow> ConnectionMethod" where
  "get_effective_connection_method r =
     (if is_active r = False then DISABLED
      else if connection_method r = DISABLED then DISABLED
      else if connection_method r = ROUTER \<and> has_router r
              \<and> health_status r \<in> set [''healthy'', ''unknown''] then ROUTER
      else if truthy (rest_url r)
              \<and> health_status r \<in> set [''healthy'', ''degraded'', ''unknown''] then REST
      else DISABLED)"

subsection \<open>The reference policy of the specification\<close>

text \<open>
  The four steps of the specification (section 4.2), written from its words: the preferred
  mode is \<open>connection_method\<close>, "has a local target" is \<open>has_router\<close>, and a remote address
  is set when \<open>rest_url\<close> holds a non-empty address.
\<close>

definition remote_address_set :: "RegisteredService \<Rightarrow> bool" where
  "remote_address_set r = (case rest_url r of None \<Rightarrow> False | Some u \<Rightarrow> u \<noteq> [])"

definition policy_step1 :: "RegisteredService \<Rightarrow> bool" where
  "policy_step1 r = (is_active r = False \<or> connection_method r = DISABLED)"

definition policy_step2 :: "RegisteredService \<Rightarrow> bool" where
  "policy_step2 r =
     (connection_method r = ROUTER \<and> has_router r
      \<and> (health_status r = ''healthy'' \<or> health_status r = ''unknown''))"

definition policy_step3 :: "RegisteredService \<Rightarrow> bool" where
  "policy_step3 r =
     (remote_address_set r
      \<and> (health_status r = ''healthy'' \<or> health_status r = ''degraded''
          \<or> health_status r = ''unknown''))"

definition effective_mode_policy :: "RegisteredService \<Rightarrow> ConnectionMethod" where
  "effective_mode_policy r =
     (if policy_step1 r then DISABLED
      else if policy_step2 r then ROUTER
      else if policy_step3 r then REST
      else DISABLED)"


section \<open>Python values and exceptions\<close>

text \<open>
  Results and arguments of service calls are dynamically typed in the source; three shapes
  are enough here. \<open>PyNone\<close> is what a Python function returns when it falls off its end.
\<close>

datatype pyval = PyNone | PyInt int | PyStr string

text \<open>
  The exceptions that the modelled code raises or catches. All of them are subclasses of
  \<^verbatim>\<open>Exception\<close>, so every \<^verbatim>\<open>except Exception\<close> of the source catches each of them.
  \<open>ServiceError message service_name status_code\<close> and
  \<open>ServiceUnavailableError service_name attempted_methods\<close> are the classes of
  \<^verbatim>\<open>core/exceptions.py\<close>; \<open>QueueFull\<close> and \<open>TimeoutError\<close> are asyncio's;
  \<open>OtherError\<close> is any exception raised by user code.
\<close>

datatype exn =
    ValueError string
  | AttributeError string
  | RuntimeError string
  | TimeoutError
  | QueueFull
  | ServiceError string "string option" nat
  | ServiceUnavailableError string "string list"
  | DiscoveryError string
  | ImportError string
  | HTTPStatusError nat
  | RedisError string
  | OtherError string

fun join_comma :: "string list \<Rightarrow> string" where
  "join_comma [] = []"
| "join_comma [x] = x"
| "join_comma (x # y # ys) = x @ '', '' @ join_comma (y # ys)"

text \<open>\<^verbatim>\<open>str(e)\<close>. For \<^verbatim>\<open>ServiceUnavailableError\<close> it is the message built by its constructor.\<close>

fun exn_str :: "exn \<Rightarrow> string" where
  "exn_str (ValueError m) = m"
| "exn_str (AttributeError m) = m"
| "exn_str (RuntimeError m) = m"
| "exn_str TimeoutError = []"
| "exn_str QueueFull = []"
| "exn_str (ServiceError m _ _) = m"
| "exn_str (ServiceUnavailableError n tried) =
     ''Service '' @ [CHR 0x27] @ n @ [CHR 0x27] @ '' is unavailable''
     @ (if tried = [] then [] else '' (tried: '' @ join_comma tried @ '')'')"
| "exn_str (DiscoveryError m) = m"
| "exn_str (ImportError m) = m"
| "exn_str (HTTPStatusError c) = ''HTTP status error''"
| "exn_str (RedisError m) = m"
| "exn_str (OtherError m) = m"

section \<open>The priority queue (\<^verbatim>\<open>evox/core/queue.py\<close>)\<close>

datatype PriorityLevel = HIGH | MEDIUM | LOW

fun priority_value :: "PriorityLevel \<Rightarrow> string" where
  "priority_value HIGH = ''high''"
| "priority_value MEDIUM = ''medium''"
| "priority_value LOW = ''low''"

text \<open>
  \<^verbatim>\<open>QueuedRequest\<close>. The request id \<^verbatim>\<open>req_<time>_<counter>\<close> is represented by its counter; the
  operation itself (\<^verbatim>\<open>func\<close>, \<^verbatim>\<open>args\<close>, \<^verbatim>\<open>kwargs\<close>) is represented by the outcome that the
  awaited call eventually has, which is supplied when the call completes.
\<close>

record QueuedRequest =
  rid :: nat
  rpriority :: PriorityLevel
  rtimeout :: "nat option"

text \<open>\<^verbatim>\<open>PriorityQueueStats\<close>; an error-log entry keeps the priority, the exception and the
  request it belongs to. The wall-clock field \<^verbatim>\<open>last_updated\<close> is left out.\<close>

record PriorityQueueStats =
  queue_lengths :: "PriorityLevel \<Rightarrow> int"
  admission_rejections :: "PriorityLevel \<Rightarrow> int"
  processed_count :: "PriorityLevel \<Rightarrow> int"
  errors :: "(PriorityLevel \<times> exn \<times> nat) list"

definition increment_queue_length :: "PriorityQueueStats \<Rightarrow> PriorityLevel \<Rightarrow> PriorityQueueStats" where
  "increment_queue_length s p = s\<lparr>queue_lengths := (queue_lengths s)(p := queue_lengths s p + 1)\<rparr>"

definition decrement_queue_length :: "PriorityQueueStats \<Rightarrow> PriorityLevel \<Rightarrow> PriorityQueueStats" where
  "decrement_queue_length s p =
     s\<lparr>queue_lengths := (queue_lengths s)(p := max 0 (queue_lengths s p - 1))\<rparr>"

definition increment_admission_rejection ::
  "PriorityQueueStats \<Rightarrow> PriorityLevel \<Rightarrow> PriorityQueueStats" where
  "increment_admission_rejection s p =
     s\<lparr>admission_rejections := (admission_rejections s)(p := admission_rejections s p + 1)\<rparr>"

definition increment_processed :: "PriorityQueueStats \<Rightarrow> PriorityLevel \<Rightarrow> PriorityQueueStats" where
  "increment_processed s p = s\<lparr>processed_count := (processed_count s)(p := processed_count s p + 1)\<rparr>"

text \<open>\<^verbatim>\<open>add_error\<close> appends, and drops the oldest entry once more than 100 are held.\<close>

definition add_error :: "PriorityQueueStats \<Rightarrow> PriorityLevel \<Rightarrow> exn \<Rightarrow> nat \<Rightarrow> PriorityQueueStats" where
  "add_error s p e rq =
     (let es = errors s @ [(p, e, rq)]
      in s\<lparr>errors := (if length es > 100 then tl es else es)\<rparr>)"

text \<open>The configuration dictionary, and the built-in defaults of \<^verbatim>\<open>evox/core/config.py\<close>.\<close>

record queue_config =
  cfg_concurrency_limits :: "PriorityLevel \<Rightarrow> int"
  cfg_queue_limits :: "PriorityLevel \<Rightarrow> int"

fun default_concurrency_limit :: "PriorityLevel \<Rightarrow> int" where
  "default_concurrency_limit HIGH = 10"
| "default_concurrency_limit MEDIUM = 5"
| "default_concurrency_limit LOW = 2"

fun default_queue_limit :: "PriorityLevel \<Rightarrow> int" where
  "default_queue_limit HIGH = 50"
| "default_queue_limit MEDIUM = 100"
| "default_queue_limit LOW = 200"

definition default_config :: queue_config where
  "default_config =
     \<lparr>cfg_concurrency_limits = default_concurrency_limit, cfg_queue_limits = default_queue_limit\<rparr>"

text \<open>
  \<^verbatim>\<open>PriorityAwareQueue\<close>. Each lane is an \<^verbatim>\<open>asyncio.Queue(maxsize=...)\<close>: the list of the
  requests put into it, and its \<^verbatim>\<open>maxsize\<close>. The worker lock is never held across a
  suspension point, so it does not appear.
\<close>

record PriorityAwareQueue =
  queue_maxsize :: "PriorityLevel \<Rightarrow> int"
  queues :: "PriorityLevel \<Rightarrow> QueuedRequest list"
  active_workers :: "PriorityLevel \<Rightarrow> int"
  concurrency_limits :: "PriorityLevel \<Rightarrow> int"
  stats :: PriorityQueueStats
  request_counter :: nat
  running :: bool

definition init_stats :: PriorityQueueStats where
  "init_stats =
     \<lparr>queue_lengths = (\<lambda>_. 0), admission_rejections = (\<lambda>_. 0), processed_count = (\<lambda>_. 0),
      errors = []\<rparr>"

definition init_queue :: "queue_config \<Rightarrow> PriorityAwareQueue" where
  "init_queue cfg =
     \<lparr>queue_maxsize = cfg_queue_limits cfg, queues = (\<lambda>_. []), active_workers = (\<lambda>_. 0),
      concurrency_limits = cfg_concurrency_limits cfg, stats = init_stats,
      request_counter = 0, running = True\<rparr>"

text \<open>
  \<^verbatim>\<open>asyncio.Queue.full\<close> and \<^verbatim>\<open>put_nowait\<close>: a queue whose \<^verbatim>\<open>maxsize\<close> is zero or negative is
  unbounded; otherwise it is full once it holds \<^verbatim>\<open>maxsize\<close> items, and \<^verbatim>\<open>put_nowait\<close> on a
  full queue raises \<^verbatim>\<open>QueueFull\<close>. The source never takes an item out of a lane.
\<close>

definition qsize :: "PriorityAwareQueue \<Rightarrow> PriorityLevel \<Rightarrow> int" where
  "qsize q p = int (length (queues q p))"

definition full :: "PriorityAwareQueue \<Rightarrow> PriorityLevel \<Rightarrow> bool" where
  "full q p = (if queue_maxsize q p \<le> 0 then False else queue_maxsize q p \<le> qsize q p)"

definition put_nowait ::
  "PriorityAwareQueue \<Rightarrow> PriorityLevel \<Rightarrow> QueuedRequest \<Rightarrow> exn + PriorityAwareQueue" where
  "put_nowait q p r =
     (if full q p then Inl QueueFull else Inr (q\<lparr>queues := (queues q)(p := queues q p @ [r])\<rparr>))"

text \<open>
  \<^verbatim>\<open>submit\<close> and \<^verbatim>\<open>_execute_request\<close> suspend exactly once, at the \<^verbatim>\<open>await\<close> of the submitted
  operation. Everything before that point runs without interleaving
  (\<open>submit_begin\<close>, \<open>execute_request_begin\<close>), and so does everything after it
  (\<open>execute_request_end\<close>, \<open>submit_end\<close>). An operation that exceeds its timeout completes
  with \<open>Inl TimeoutError\<close>, raised by \<^verbatim>\<open>asyncio.wait_for\<close>.
\<close>

definition execute_request_begin :: "PriorityAwareQueue \<Rightarrow> QueuedRequest \<Rightarrow> PriorityAwareQueue" where
  "execute_request_begin q r =
     q\<lparr>active_workers := (active_workers q)(rpriority r := active_workers q (rpriority r) + 1),
       stats := increment_processed (stats q) (rpriority r)\<rparr>"

definition execute_request_end ::
  "PriorityAwareQueue \<Rightarrow> QueuedRequest \<Rightarrow> exn + pyval \<Rightarrow> (exn + pyval) \<times> PriorityAwareQueue" where
  "execute_request_end q r outcome =
     (let q1 = (case outcome of
                  Inl e \<Rightarrow> q\<lparr>stats := add_error (stats q) (rpriority r) e (rid r)\<rparr>
                | Inr v \<Rightarrow> q)
      in (outcome,
          q1\<lparr>active_workers :=
               (active_workers q1)(rpriority r := max 0 (active_workers q1 (rpriority r) - 1))\<rparr>))"

definition queue_full_error :: "PriorityLevel \<Rightarrow> exn" where
  "queue_full_error p =
     RuntimeError (''Queue full for priority '' @ priority_value p @ '', request rejected'')"

definition submit_begin ::
  "PriorityAwareQueue \<Rightarrow> PriorityLevel \<Rightarrow> nat option \<Rightarrow> (exn + QueuedRequest) \<times> PriorityAwareQueue" where
  "submit_begin q p t =
     (let q1 = q\<lparr>request_counter := request_counter q + 1\<rparr>;
          r = \<lparr>rid = request_counter q1, rpriority = p, rtimeout = t\<rparr>
      in case put_nowait q1 p r of
           Inl e \<Rightarrow>
             (Inl (queue_full_error p),
              q1\<lparr>stats := increment_admission_rejection (stats q1) p\<rparr>)
         | Inr q2 \<Rightarrow>
             (Inr r, execute_request_begin (q2\<lparr>stats := increment_queue_length (stats q2) p\<rparr>) r))"

definition submit_end ::
  "PriorityAwareQueue \<Rightarrow> QueuedRequest \<Rightarrow> exn + pyval \<Rightarrow> (exn + pyval) \<times> PriorityAwareQueue" where
  "submit_end q r outcome =
     (case execute_request_end q r outcome of
        (res, q1) \<Rightarrow> (res, q1\<lparr>stats := decrement_queue_length (stats q1) (rpriority r)\<rparr>))"

text \<open>A \<^verbatim>\<open>submit\<close> whose operation completes before any other coroutine runs.\<close>

definition submit ::
  "PriorityAwareQueue \<Rightarrow> PriorityLevel \<Rightarrow> nat option \<Rightarrow> exn + pyval
     \<Rightarrow> (exn + pyval) \<times> PriorityAwareQueue" where
  "submit q p t outcome =
     (case submit_begin q p t of
        (Inl e, q1) \<Rightarrow> (Inl e, q1)
      | (Inr r, q1) \<Rightarrow> submit_end q1 r outcome)"

text \<open>
  The steps of the queue under concurrent callers: a caller enters \<^verbatim>\<open>submit\<close> and runs up to
  the suspension point, or a suspended call completes and runs to the end of \<^verbatim>\<open>submit\<close>.
  A run applies the steps from left to right.
\<close>

datatype queue_event =
    Submit PriorityLevel "nat option"
  | Complete QueuedRequest "exn + pyval"

fun step :: "PriorityAwareQueue \<Rightarrow> queue_event \<Rightarrow> PriorityAwareQueue" where
  "step q (Submit p t) = snd (submit_begin q p t)"
| "step q (Complete r outcome) = snd (submit_end q r outcome)"

definition run :: "PriorityAwareQueue \<Rightarrow> queue_event list \<Rightarrow> PriorityAwareQueue" where
  "run q evs = foldl step q evs"

section \<open>Fan-out (\<^verbatim>\<open>evox/core/scheduler.py\<close>, \<^verbatim>\<open>PriorityAwareQueue.gather\<close>)\<close>

datatype Policy = PARTIAL_OK | ALL_OR_NOTHING

text \<open>
  An element of a result list: the value an operation returned, the dictionary
  \<^verbatim>\<open>{"error": str(e)}\<close> that \<^verbatim>\<open>parallel\<close> builds, or the exception object that
  \<^verbatim>\<open>asyncio.gather(..., return_exceptions=True)\<close> puts in the slot.
\<close>

datatype item = Result pyval | ErrorDict string | ExceptionObject exn

text \<open>
  What a task is when the call that started it returns. The source never cancels a task.
\<close>

datatype task_state = Done | InFlight | Cancelled

text \<open>
  The operations are given by their outcomes, in input order. The order in which the event
  loop completes them is a parameter: \<open>order\<close> lists the indices of the operations, first
  completed first. Positions that are not indices of an operation are skipped.
\<close>

fun first_failure :: "(exn + pyval) list \<Rightarrow> nat list \<Rightarrow> (nat \<times> exn) option" where
  "first_failure ops [] = None"
| "first_failure ops (i # rest) =
     (if i < length ops
      then (case ops ! i of Inl e \<Rightarrow> Some (i, e) | Inr v \<Rightarrow> first_failure ops rest)
      else first_failure ops rest)"

fun completed_before_failure :: "(exn + pyval) list \<Rightarrow> nat list \<Rightarrow> nat list" where
  "completed_before_failure ops [] = []"
| "completed_before_failure ops (i # rest) =
     (if i < length ops
      then (case ops ! i of Inl e \<Rightarrow> [i] | Inr v \<Rightarrow> i # completed_before_failure ops rest)
      else completed_before_failure ops rest)"

fun returned_values :: "(exn + pyval) list \<Rightarrow> item list" where
  "returned_values [] = []"
| "returned_values (Inr v # rest) = Result v # returned_values rest"
| "returned_values (Inl e # rest) = returned_values rest"

fun wrap_outcome :: "exn + pyval \<Rightarrow> item" where
  "wrap_outcome (Inr v) = Result v"
| "wrap_outcome (Inl e) = ErrorDict (exn_str e)"

fun as_completed :: "(exn + pyval) list \<Rightarrow> nat list \<Rightarrow> (exn + pyval) list" where
  "as_completed ops [] = []"
| "as_completed ops (i # rest) =
     (if i < length ops then ops ! i # as_completed ops rest else as_completed ops rest)"

text \<open>
  \<^verbatim>\<open>asyncio.Semaphore(concurrency)\<close> raises \<^verbatim>\<open>ValueError\<close> for a negative value. With the value
  zero no task ever enters the semaphore, and a call that waits for at least one task never
  returns: that is the result \<open>None\<close>.

  \<^verbatim>\<open>CallScheduler.parallel\<close>. Under \<^verbatim>\<open>ALL_OR_NOTHING\<close> it awaits \<^verbatim>\<open>asyncio.gather(*tasks)\<close>,
  which raises the first exception that any task raises and otherwise returns the values in
  input order. Otherwise it appends one element per task in the order of
  \<^verbatim>\<open>asyncio.as_completed\<close>. The \<^verbatim>\<open>priority\<close> argument is not used by the source.
\<close>

definition parallel ::
  "Policy \<Rightarrow> int \<Rightarrow> (exn + pyval) list \<Rightarrow> nat list \<Rightarrow> (exn + item list) option" where
  "parallel policy concurrency ops order =
     (if concurrency < 0 then Some (Inl (ValueError ''Semaphore initial value must be >= 0''))
      else if concurrency = 0 \<and> ops \<noteq> [] then None
      else if policy = ALL_OR_NOTHING then
        (case first_failure ops order of
           Some (i, e) \<Rightarrow> Some (Inl e)
         | None \<Rightarrow> Some (Inr (returned_values ops)))
      else Some (Inr (map wrap_outcome (as_completed ops order))))"

text \<open>
  The state of every task at the moment \<^verbatim>\<open>parallel\<close> under \<^verbatim>\<open>ALL_OR_NOTHING\<close> hands control
  back to its caller: \<^verbatim>\<open>asyncio.gather\<close> without \<^verbatim>\<open>return_exceptions\<close> propagates the first
  exception at once and leaves the other awaitables running, and \<^verbatim>\<open>parallel\<close> has no
  handler that would cancel them.
\<close>

definition tasks_after_parallel :: "(exn + pyval) list \<Rightarrow> nat list \<Rightarrow> task_state list" where
  "tasks_after_parallel ops order =
     map (\<lambda>j. if j \<in> set (completed_before_failure ops order) then Done else InFlight)
         [0 ..< length ops]"

text \<open>
  \<^verbatim>\<open>PriorityAwareQueue.gather\<close>: \<^verbatim>\<open>asyncio.gather(..., return_exceptions=True)\<close> returns one
  element per request in input order, whatever the order of completion, with the exception
  object in the slot of a request that raised.
\<close>

fun exception_or_value :: "exn + pyval \<Rightarrow> item" where
  "exception_or_value (Inr v) = Result v"
| "exception_or_value (Inl e) = ExceptionObject e"

definition gather :: "int \<Rightarrow> (exn + pyval) list \<Rightarrow> (exn + item list) option" where
  "gather concurrency requests =
     (if concurrency < 0 then Some (Inl (ValueError ''Semaphore initial value must be >= 0''))
      else if concurrency = 0 \<and> requests \<noteq> [] then None
      else Some (Inr (map exception_or_value requests)))"

section \<open>The registry and its cache (\<^verbatim>\<open>discovery/registry.py\<close>, \<^verbatim>\<open>cached_registry.py\<close>)\<close>

text \<open>
  A value held by Redis: raw bytes (a connection method is stored as its enum value), or
  the JSON document \<^verbatim>\<open>{"status": ..., "timestamp": ...}\<close> of a health snapshot.
\<close>

datatype cached = Bytes string | HealthData string nat

text \<open>
  What a call does that is visible from outside, in the order in which it happens: a line
  written by \<^verbatim>\<open>logger.warning\<close>, a line written by \<^verbatim>\<open>print\<close>, a committed change of a
  health status in the database, an HTTP request, a call of a method of a router module.
\<close>

datatype event =
    LogWarning string
  | Print string
  | DbHealthUpdate string string
  | HttpPost string
  | RouterCall string string

type_synonym router_module = "string \<Rightarrow> (pyval list \<Rightarrow> exn + pyval) option"

text \<open>
  The state shared by the calls: the database (reachable only when a session factory is
  configured), the Redis client of \<^verbatim>\<open>CachedServiceRegistry\<close> with its availability flag, the
  Redis store (every entry with the time at which it expires), the clock, the class-level
  module cache of \<^verbatim>\<open>ServiceProxy\<close>, and the trace of events so far. \<open>faults\<close> scripts the
  behaviour of the Redis server: every Redis command consumes the head of the list and
  raises when it is \<open>True\<close>; past the end of the list no command fails.
\<close>

record world =
  db_configured :: bool
  db :: "string \<Rightarrow> RegisteredService option"
  redis_client :: bool
  redis_available :: bool
  redis :: "string \<Rightarrow> (cached \<times> nat) option"
  clock :: nat
  faults :: "bool list"
  router_cache :: "string \<Rightarrow> router_module option"
  trace :: "event list"

definition emit :: "world \<Rightarrow> event \<Rightarrow> world" where
  "emit w e = w\<lparr>trace := trace w @ [e]\<rparr>"

definition advance :: "nat \<Rightarrow> world \<Rightarrow> world" where
  "advance dt w = w\<lparr>clock := clock w + dt\<rparr>"

subsection \<open>\<^verbatim>\<open>ServiceRegistryManager\<close>\<close>

definition no_session_factory :: exn where
  "no_session_factory = DiscoveryError ''Database session factory not configured''"

definition invalid_service_name :: exn where
  "invalid_service_name = ValueError ''service_name must be a non-empty string''"

definition get_service_by_name :: "world \<Rightarrow> string \<Rightarrow> exn + RegisteredService option" where
  "get_service_by_name w n =
     (if \<not> db_configured w then Inl no_session_factory
      else Inr (db w n))"

definition update_health_status ::
  "world \<Rightarrow> string \<Rightarrow> string \<Rightarrow> nat \<Rightarrow> (exn + bool) \<times> world" where
  "update_health_status w n status ts =
     (if \<not> db_configured w
      then (Inl no_session_factory, w)
      else (case db w n of
              None \<Rightarrow> (Inr False, w)
            | Some s \<Rightarrow>
                (Inr True,
                 emit (w\<lparr>db := (db w)(n \<mapsto> s\<lparr>health_status := status,
                                                 last_health_check := Some ts\<rparr>)\<rparr>)
                      (DbHealthUpdate n status))))"

subsection \<open>Redis commands\<close>

definition next_fault :: "world \<Rightarrow> bool" where
  "next_fault w = (case faults w of [] \<Rightarrow> False | b # bs \<Rightarrow> b)"

definition consume_fault :: "world \<Rightarrow> world" where
  "consume_fault w = w\<lparr>faults := tl (faults w)\<rparr>"

text \<open>The next \<open>k\<close> Redis commands succeed.\<close>

definition commands_succeed :: "nat \<Rightarrow> world \<Rightarrow> bool" where
  "commands_succeed k w = (True \<notin> set (take k (faults w)))"

definition live_value :: "world \<Rightarrow> string \<Rightarrow> cached option" where
  "live_value w k =
     (case redis w k of None \<Rightarrow> None
      | Some (v, expires) \<Rightarrow> if clock w < expires then Some v else None)"

definition redis_get :: "world \<Rightarrow> string \<Rightarrow> (exn + cached option) \<times> world" where
  "redis_get w k =
     (if \<not> redis_client w then (Inl (AttributeError ''NoneType object has no attribute get''), w)
      else if next_fault w then (Inl (RedisError ''GET failed''), consume_fault w)
      else (Inr (live_value w k), consume_fault w))"

definition redis_setex :: "world \<Rightarrow> string \<Rightarrow> nat \<Rightarrow> cached \<Rightarrow> (exn + unit) \<times> world" where
  "redis_setex w k ttl v =
     (if \<not> redis_client w then (Inl (AttributeError ''NoneType object has no attribute setex''), w)
      else if next_fault w then (Inl (RedisError ''SETEX failed''), consume_fault w)
      else (Inr (), (consume_fault w)\<lparr>redis := (redis w)(k \<mapsto> (v, clock w + ttl))\<rparr>))"

definition redis_delete :: "world \<Rightarrow> string \<Rightarrow> (exn + unit) \<times> world" where
  "redis_delete w k =
     (if \<not> redis_client w then (Inl (AttributeError ''NoneType object has no attribute delete''), w)
      else if next_fault w then (Inl (RedisError ''DEL failed''), consume_fault w)
      else (Inr (), (consume_fault w)\<lparr>redis := (redis w)(k := None)\<rparr>))"

subsection \<open>\<^verbatim>\<open>CachedServiceRegistry\<close>\<close>

definition CACHE_PREFIX :: string where "CACHE_PREFIX = ''rssbot:service:''"
definition CACHE_TTL :: nat where "CACHE_TTL = 300"
definition HEALTH_CACHE_TTL :: nat where "HEALTH_CACHE_TTL = 60"

definition method_key :: "string \<Rightarrow> string" where
  "method_key n = CACHE_PREFIX @ n @ '':method''"

definition health_key :: "string \<Rightarrow> string" where
  "health_key n = CACHE_PREFIX @ n @ '':health''"

text \<open>The truth value of the bytes read, and \<^verbatim>\<open>ConnectionMethod(cached_value.decode())\<close>,
  where \<open>None\<close> is the \<^verbatim>\<open>ValueError\<close> of a value that is no member of the enum.\<close>

fun cached_truthy :: "cached \<Rightarrow> bool" where
  "cached_truthy (Bytes s) = (s \<noteq> [])"
| "cached_truthy (HealthData status ts) = True"

fun decode_method :: "cached \<Rightarrow> ConnectionMethod option" where
  "decode_method (Bytes s) = ConnectionMethod_of s"
| "decode_method (HealthData status ts) = None"

text \<open>The lines that the cache layer writes with \<^verbatim>\<open>logger.warning\<close>.\<close>

definition cache_error_warning :: "string \<Rightarrow> exn \<Rightarrow> event" where
  "cache_error_warning n e = LogWarning (''Redis cache error for '' @ n @ '': '' @ exn_str e)"

definition cache_store_warning :: "string \<Rightarrow> exn \<Rightarrow> event" where
  "cache_store_warning n e =
     LogWarning (''Failed to cache connection method for '' @ n @ '': '' @ exn_str e)"

definition not_found_warning :: "string \<Rightarrow> event" where
  "not_found_warning n =
     LogWarning (''Service '' @ n @ '' not found in registry, defaulting to REST'')"

definition health_cache_warning :: "string \<Rightarrow> exn \<Rightarrow> event" where
  "health_cache_warning n e = LogWarning (''Failed to cache health for '' @ n @ '': '' @ exn_str e)"

definition get_cached_connection_method ::
  "world \<Rightarrow> string \<Rightarrow> (exn + ConnectionMethod option) \<times> world" where
  "get_cached_connection_method w n =
     (if \<not> redis_client w then (Inr None, w)
      else (case redis_get w (method_key n) of
              (Inl e, w1) \<Rightarrow> (Inl e, w1)
            | (Inr None, w1) \<Rightarrow> (Inr None, w1)
            | (Inr (Some c), w1) \<Rightarrow>
                if cached_truthy c
                then (case decode_method c of
                        Some m \<Rightarrow> (Inr (Some m), w1)
                      | None \<Rightarrow>
                          (case redis_delete w1 (method_key n) of
                             (Inl e, w2) \<Rightarrow> (Inl e, w2)
                           | (Inr u, w2) \<Rightarrow> (Inr None, w2)))
                else (Inr None, w1)))"

definition cache_connection_method ::
  "world \<Rightarrow> string \<Rightarrow> ConnectionMethod \<Rightarrow> (exn + unit) \<times> world" where
  "cache_connection_method w n m =
     (if \<not> redis_client w then (Inr (), w)
      else redis_setex w (method_key n) CACHE_TTL (Bytes (method_value m)))"

text \<open>The two guarded cache accesses of \<^verbatim>\<open>get_effective_connection_method\<close>
  (lines 135 to 141 and 152 to 156): an exception is logged and swallowed.\<close>

definition try_cached_method :: "world \<Rightarrow> string \<Rightarrow> ConnectionMethod option \<times> world" where
  "try_cached_method w n =
     (if redis_available w
      then (case get_cached_connection_method w n of
              (Inr r, w1) \<Rightarrow> (r, w1)
            | (Inl e, w1) \<Rightarrow>
                (None, emit w1 (cache_error_warning n e)))
      else (None, w))"

definition try_cache_method :: "world \<Rightarrow> string \<Rightarrow> ConnectionMethod \<Rightarrow> world" where
  "try_cache_method w n m =
     (if redis_available w
      then (case cache_connection_method w n m of
              (Inr u, w1) \<Rightarrow> w1
            | (Inl e, w1) \<Rightarrow>
                emit w1 (cache_store_warning n e))
      else w)"

text \<open>\<^verbatim>\<open>CachedServiceRegistry.get_effective_connection_method\<close>.\<close>

definition cached_effective_connection_method ::
  "world \<Rightarrow> string \<Rightarrow> (exn + ConnectionMethod) \<times> world" where
  "cached_effective_connection_method w n =
     (if n = [] then (Inl invalid_service_name, w)
      else (case try_cached_method w n of
              (Some m, w1) \<Rightarrow> (Inr m, w1)
            | (None, w1) \<Rightarrow>
                (case get_service_by_name w1 n of
                   Inl e \<Rightarrow> (Inl e, w1)
                 | Inr None \<Rightarrow>
                     (Inr REST, emit w1 (not_found_warning n))
                 | Inr (Some service) \<Rightarrow>
                     (let effective_method = get_effective_connection_method service
                      in (Inr effective_method, try_cache_method w1 n effective_method)))))"

definition should_use_router :: "world \<Rightarrow> string \<Rightarrow> (exn + bool) \<times> world" where
  "should_use_router w n =
     (if n = [] then (Inl invalid_service_name, w)
      else (case cached_effective_connection_method w n of
              (Inl e, w1) \<Rightarrow> (Inl e, w1)
            | (Inr m, w1) \<Rightarrow> (Inr (m = ROUTER), w1)))"

text \<open>\<^verbatim>\<open>update_service_health_cached\<close>: the database first, then the health snapshot and the
  removal of the cached method inside one \<^verbatim>\<open>try\<close>, whose handler logs and returns.\<close>

definition update_service_health_cached ::
  "world \<Rightarrow> string \<Rightarrow> string \<Rightarrow> nat option \<Rightarrow> (exn + unit) \<times> world" where
  "update_service_health_cached w n status timestamp =
     (let ts = (case timestamp of None \<Rightarrow> clock w | Some t \<Rightarrow> t)
      in case update_health_status w n status ts of
           (Inl e, w1) \<Rightarrow> (Inl e, w1)
         | (Inr b, w1) \<Rightarrow>
             if redis_available w1
             then (case redis_setex w1 (health_key n) HEALTH_CACHE_TTL (HealthData status ts) of
                     (Inl e, w2) \<Rightarrow>
                       (Inr (), emit w2 (health_cache_warning n e))
                   | (Inr u, w2) \<Rightarrow>
                       (case redis_delete w2 (method_key n) of
                          (Inl e, w3) \<Rightarrow>
                            (Inr (), emit w3 (health_cache_warning n e))
                        | (Inr u', w3) \<Rightarrow> (Inr (), w3)))
             else (Inr (), w1))"

section \<open>The service proxy (\<^verbatim>\<open>discovery/proxy.py\<close>)\<close>

text \<open>
  What the proxy meets outside the process state: whether the global cached registry can be
  obtained, what \<^verbatim>\<open>importlib.import_module\<close> does for a path, and what the HTTP client gets
  for a request: a transport error, or a response with its status code and the outcome of
  \<^verbatim>\<open>response.json()\<close>. Positional and keyword arguments are one list.
\<close>

datatype http_outcome = TransportError exn | Response nat "exn + pyval"

record environment =
  cached_registry_error :: "exn option"
  import_module :: "string \<Rightarrow> exn + router_module"
  http_post :: "string \<Rightarrow> pyval list \<Rightarrow> http_outcome"

definition quoted :: "string \<Rightarrow> string" where
  "quoted s = [CHR 0x27] @ s @ [CHR 0x27]"

definition rstrip_slash :: "string \<Rightarrow> string" where
  "rstrip_slash s = rev (dropWhile (\<lambda>c. c = CHR ''/'') (rev s))"

text \<open>The messages of the exceptions that the proxy raises, and the lines it prints.\<close>

definition no_router_path_error :: "RegisteredService \<Rightarrow> exn" where
  "no_router_path_error service =
     ServiceError (''No router path configured for service '' @ name service) None 500"

definition cannot_import_error :: "RegisteredService \<Rightarrow> string \<Rightarrow> exn" where
  "cannot_import_error service m =
     ServiceError (''Cannot import router for '' @ name service @ '': '' @ m) None 500"

definition method_not_on_router :: "RegisteredService \<Rightarrow> string \<Rightarrow> exn" where
  "method_not_on_router service method_name =
     AttributeError (''Method '' @ quoted method_name @ '' not found on router for ''
                     @ name service)"

definition method_not_on_service :: "RegisteredService \<Rightarrow> string \<Rightarrow> exn" where
  "method_not_on_service service method_name =
     AttributeError (''Method '' @ quoted method_name @ '' not found on service ''
                     @ name service)"

definition router_failed_line :: "string \<Rightarrow> string \<Rightarrow> exn \<Rightarrow> event" where
  "router_failed_line n method_name e =
     Print (''Router call failed for '' @ n @ ''.'' @ method_name @ '': '' @ exn_str e)"

definition rest_failed_line :: "string \<Rightarrow> string \<Rightarrow> exn \<Rightarrow> event" where
  "rest_failed_line n method_name e =
     Print (''REST call failed for '' @ n @ ''.'' @ method_name @ '': '' @ exn_str e)"

definition endpoint_url :: "string \<Rightarrow> string \<Rightarrow> string" where
  "endpoint_url url method_name = rstrip_slash url @ ''/'' @ method_name"

text \<open>\<^verbatim>\<open>_get_router_module\<close>: the class-level cache first, then the import, whose
  \<^verbatim>\<open>ImportError\<close> alone is turned into a \<^verbatim>\<open>ServiceError\<close>.\<close>

definition get_router_module ::
  "environment \<Rightarrow> world \<Rightarrow> RegisteredService \<Rightarrow> (exn + router_module) \<times> world" where
  "get_router_module env w service =
     (case router_cache w (name service) of
        Some md \<Rightarrow> (Inr md, w)
      | None \<Rightarrow>
          (case router_path service of
             None \<Rightarrow> (Inl (no_router_path_error service), w)
           | Some path \<Rightarrow>
               if path = [] then (Inl (no_router_path_error service), w)
               else (case import_module env path of
                       Inr md \<Rightarrow> (Inr md, w\<lparr>router_cache := (router_cache w)(name service \<mapsto> md)\<rparr>)
                     | Inl (ImportError m) \<Rightarrow> (Inl (cannot_import_error service m), w)
                     | Inl e \<Rightarrow> (Inl e, w))))"

text \<open>\<^verbatim>\<open>_call_via_router\<close>: a method that the module lacks is an \<^verbatim>\<open>AttributeError\<close>.\<close>

definition call_via_router ::
  "environment \<Rightarrow> world \<Rightarrow> RegisteredService \<Rightarrow> string \<Rightarrow> pyval list \<Rightarrow> (exn + pyval) \<times> world" where
  "call_via_router env w service method_name args =
     (case get_router_module env w service of
        (Inl e, w1) \<Rightarrow> (Inl e, w1)
      | (Inr md, w1) \<Rightarrow>
          (case md method_name of
             Some method \<Rightarrow> (method args, emit w1 (RouterCall (name service) method_name))
           | None \<Rightarrow> (Inl (method_not_on_router service method_name), w1)))"

text \<open>
  \<^verbatim>\<open>_call_via_rest\<close>. Status 200 returns the body, 404 raises \<^verbatim>\<open>AttributeError\<close>, and any
  other status goes to \<^verbatim>\<open>response.raise_for_status()\<close>, which raises unless the status is
  one of 2xx; after it the function ends without a \<^verbatim>\<open>return\<close>.
\<close>

definition call_via_rest ::
  "environment \<Rightarrow> world \<Rightarrow> RegisteredService \<Rightarrow> string \<Rightarrow> pyval list \<Rightarrow> (exn + pyval) \<times> world" where
  "call_via_rest env w service method_name args =
     (case rest_url service of
        None \<Rightarrow> (Inl (AttributeError ''NoneType object has no attribute rstrip''), w)
      | Some url \<Rightarrow>
          (let w1 = emit w (HttpPost (endpoint_url url method_name))
           in case http_post env (endpoint_url url method_name) args of
                TransportError e \<Rightarrow> (Inl e, w1)
              | Response status body \<Rightarrow>
                  if status = 200 then (body, w1)
                  else if status = 404
                  then (Inl (method_not_on_service service method_name), w1)
                  else if 200 \<le> status \<and> status < 300 then (Inr PyNone, w1)
                  else (Inl (HTTPStatusError status), w1)))"

text \<open>
  \<^verbatim>\<open>_execute_service_call\<close> in its three parts. Lines 80 to 92 obtain the registry, the
  service row and the two cached decisions.
\<close>

definition resolve_service ::
  "environment \<Rightarrow> world \<Rightarrow> string
     \<Rightarrow> (exn + RegisteredService \<times> bool \<times> ConnectionMethod) \<times> world" where
  "resolve_service env w n =
     (case cached_registry_error env of
        Some e \<Rightarrow> (Inl (ServiceError (''Cannot access cached registry: '' @ exn_str e) (Some n) 500), w)
      | None \<Rightarrow>
          (case get_service_by_name w n of
             Inl e \<Rightarrow> (Inl e, w)
           | Inr None \<Rightarrow> (Inl (ServiceUnavailableError n [''registry_lookup'']), w)
           | Inr (Some service) \<Rightarrow>
               if \<not> is_active service
               then (Inl (ServiceUnavailableError n [''registry_lookup'']), w)
               else (case should_use_router w n of
                       (Inl e, w1) \<Rightarrow> (Inl e, w1)
                     | (Inr use_router, w1) \<Rightarrow>
                         (case cached_effective_connection_method w1 n of
                            (Inl e, w2) \<Rightarrow> (Inl e, w2)
                          | (Inr effective_method, w2) \<Rightarrow>
                              (Inr (service, use_router, effective_method), w2)))))"

text \<open>
  Lines 98 to 111, the router attempt. It returns the result of the call, or it raises (an
  exception of the health update inside the handler), or it goes on with the list of
  attempted methods.
\<close>

datatype attempt = Returned pyval | Raised exn | Continue "string list"

definition router_attempt ::
  "environment \<Rightarrow> world \<Rightarrow> string \<Rightarrow> RegisteredService \<Rightarrow> bool \<Rightarrow> string \<Rightarrow> pyval list
     \<Rightarrow> attempt \<times> world" where
  "router_attempt env w n service use_router method_name args =
     (if use_router \<and> has_router service
      then (case call_via_router env w service method_name args of
              (Inr v, w1) \<Rightarrow> (Returned v, w1)
            | (Inl e, w1) \<Rightarrow>
                (let w2 = emit w1 (router_failed_line n method_name e)
                 in case update_service_health_cached w2 n ''degraded'' (Some (clock w2)) of
                      (Inl e', w3) \<Rightarrow> (Raised e', w3)
                    | (Inr u, w3) \<Rightarrow> (Continue [''router''], w3)))
      else (Continue [], w))"

text \<open>Lines 113 to 130, the REST attempt and the final \<^verbatim>\<open>raise\<close>.\<close>

definition rest_attempt ::
  "environment \<Rightarrow> world \<Rightarrow> string \<Rightarrow> RegisteredService \<Rightarrow> ConnectionMethod \<Rightarrow> string list
     \<Rightarrow> string \<Rightarrow> pyval list \<Rightarrow> (exn + pyval) \<times> world" where
  "rest_attempt env w n service effective_method attempted_methods method_name args =
     (if truthy (rest_url service) \<and> effective_method \<noteq> DISABLED
      then (case call_via_rest env w service method_name args of
              (Inr v, w1) \<Rightarrow> (Inr v, w1)
            | (Inl e, w1) \<Rightarrow>
                (let w2 = emit w1 (rest_failed_line n method_name e)
                 in case update_service_health_cached w2 n ''down'' (Some (clock w2)) of
                      (Inl e', w3) \<Rightarrow> (Inl e', w3)
                    | (Inr u, w3) \<Rightarrow>
                        (Inl (ServiceUnavailableError n (attempted_methods @ [''rest''])), w3)))
      else (Inl (ServiceUnavailableError n attempted_methods), w))"

definition execute_service_call ::
  "environment \<Rightarrow> world \<Rightarrow> string \<Rightarrow> string \<Rightarrow> pyval list \<Rightarrow> (exn + pyval) \<times> world" where
  "execute_service_call env w n method_name args =
     (case resolve_service env w n of
        (Inl e, w1) \<Rightarrow> (Inl e, w1)
      | (Inr (service, use_router, effective_method), w1) \<Rightarrow>
          (case router_attempt env w1 n service use_router method_name args of
             (Returned v, w2) \<Rightarrow> (Inr v, w2)
           | (Raised e, w2) \<Rightarrow> (Inl e, w2)
           | (Continue attempted_methods, w2) \<Rightarrow>
               rest_attempt env w2 n service effective_method attempted_methods method_name args))"

section \<open>Auxiliary notions for the proofs\<close>

text \<open>
  The default queue after \<open>n\<close> callers have entered \<^verbatim>\<open>submit\<close> at HIGH priority and none of
  their operations has completed.
\<close>

definition high_submitted :: "nat \<Rightarrow> PriorityAwareQueue" where
  "high_submitted n =
     \<lparr>queue_maxsize = default_queue_limit,
      queues = (\<lambda>_. [])(HIGH := map (\<lambda>i. \<lparr>rid = Suc i, rpriority = HIGH, rtimeout = None\<rparr>)
                                     [0..<n]),
      active_workers = (\<lambda>_. 0)(HIGH := int n),
      concurrency_limits = default_concurrency_limit,
      stats = \<lparr>queue_lengths = (\<lambda>_. 0)(HIGH := int n), admission_rejections = (\<lambda>_. 0),
               processed_count = (\<lambda>_. 0)(HIGH := int n), errors = []\<rparr>,
      request_counter = n, running = True\<rparr>"

text \<open>A configuration whose queue-depth caps are all zero.\<close>

definition zero_cap_config :: queue_config where
  "zero_cap_config =
     \<lparr>cfg_concurrency_limits = default_concurrency_limit, cfg_queue_limits = (\<lambda>_. 0)\<rparr>"

text \<open>Five operations of which the second fails, completing in input order.\<close>

definition five_ops :: "(exn + pyval) list" where
  "five_ops = [Inr (PyInt 1), Inl (OtherError ''boom''), Inr (PyInt 3), Inr (PyInt 4),
               Inr (PyInt 5)]"

text \<open>
  Two states of the world agree on everything but the Redis store, the fault script and the
  trace; and the second has the trace of the first followed by warnings only.
\<close>

definition same_registry :: "world \<Rightarrow> world \<Rightarrow> bool" where
  "same_registry w w' =
     (db w' = db w \<and> db_configured w' = db_configured w \<and> redis_client w' = redis_client w
      \<and> redis_available w' = redis_available w \<and> clock w' = clock w
      \<and> router_cache w' = router_cache w)"

fun is_warning :: "event \<Rightarrow> bool" where
  "is_warning (LogWarning s) = True"
| "is_warning e = False"

definition only_warnings :: "world \<Rightarrow> world \<Rightarrow> bool" where
  "only_warnings w w' = (\<exists>evs. trace w' = trace w @ evs \<and> list_all is_warning evs)"

text \<open>
  A registered service that prefers the router and is healthy, and a world in which the
  cache holds the decision \<open>ROUTER\<close> for it. \<open>example_world fs\<close> has the Redis fault
  script \<open>fs\<close>; \<open>uncached_world\<close> is the same world with the cache unavailable.
\<close>

definition ai_svc :: RegisteredService where
  "ai_svc =
     \<lparr>name = ''ai_svc'', connection_method = ROUTER, rest_url = Some ''http://localhost:8005/'',
      is_active = True, last_health_check = None, health_status = ''healthy'',
      has_router = True, router_path = Some ''services.ai_svc.router''\<rparr>"

definition example_world :: "bool list \<Rightarrow> world" where
  "example_world fs =
     \<lparr>db_configured = True, db = [''ai_svc'' \<mapsto> ai_svc], redis_client = True,
      redis_available = True,
      redis = [method_key ''ai_svc'' \<mapsto> (Bytes ''router'', 300)],
      clock = 0, faults = fs, router_cache = Map.empty, trace = []\<rparr>"

definition uncached_world :: world where
  "uncached_world = (example_world [])\<lparr>redis_client := False, redis_available := False\<rparr>"

text \<open>The example world with a health snapshot \<^verbatim>\<open>down\<close> already in the cache.\<close>

definition stale_down_world :: "bool list \<Rightarrow> world" where
  "stale_down_world fs =
     (example_world fs)
       \<lparr>redis := [health_key ''ai_svc'' \<mapsto> (HealthData ''down'' 0, 60),
                  method_key ''ai_svc'' \<mapsto> (Bytes ''router'', 300)]\<rparr>"

text \<open>
  Three environments for the service \<open>ai_svc\<close>. In all of them the cached registry is
  available. In \<open>failing_env\<close> the router method \<^verbatim>\<open>summarize\<close> raises and the HTTP request
  fails; in \<open>fallback_env\<close> the router method raises and the HTTP request is answered with
  status 200; in \<open>missing_method_env\<close> the router module has no method \<^verbatim>\<open>summarize\<close> and the
  HTTP request is answered with status 200.
\<close>

definition raising_module :: router_module where
  "raising_module = [''summarize'' \<mapsto> (\<lambda>args. Inl (OtherError ''boom''))]"

definition health_only_module :: router_module where
  "health_only_module = [''health'' \<mapsto> (\<lambda>args. Inr (PyStr ''healthy''))]"

definition failing_env :: environment where
  "failing_env =
     \<lparr>cached_registry_error = None, import_module = (\<lambda>path. Inr raising_module),
      http_post = (\<lambda>url args. TransportError (OtherError ''connection refused''))\<rparr>"

definition fallback_env :: environment where
  "fallback_env =
     \<lparr>cached_registry_error = None, import_module = (\<lambda>path. Inr raising_module),
      http_post = (\<lambda>url args. Response 200 (Inr (PyStr ''summary'')))\<rparr>"

definition missing_method_env :: environment where
  "missing_method_env =
     \<lparr>cached_registry_error = None, import_module = (\<lambda>path. Inr health_only_module),
      http_post = (\<lambda>url args. Response 200 (Inr (PyStr ''summary'')))\<rparr>"

section \<open>Properties of the service record\<close>

lemma truthy_remote_address_set: "truthy (rest_url r) = remote_address_set r"
  by (cases "rest_url r") (simp_all add: remote_address_set_def)

text \<open>
  Claim C1. For every service record the effective connection method computed by the code
  equals the four-step reference policy of the specification evaluated on the record's
  fields: Disabled when the record is inactive or its preferred mode is Disabled; otherwise
  Local (\<open>ROUTER\<close>) when Local is preferred, a local target exists and health is healthy or
  unknown; otherwise Remote (\<open>REST\<close>) when a remote address is set and health is healthy,
  degraded or unknown; otherwise Disabled.
\<close>

theorem effective_method_is_policy:
  "get_effective_connection_method r = effective_mode_policy r"
  by (auto simp add: get_effective_connection_method_def effective_mode_policy_def
      policy_step1_def policy_step2_def policy_step3_def truthy_remote_address_set)

theorem effective_method_is_policy_witness:
  "get_effective_connection_method
     \<lparr>name = ''ai_svc'', connection_method = ROUTER, rest_url = Some ''http://localhost:8005'',
      is_active = True, last_health_check = None, health_status = ''degraded'',
      has_router = True, router_path = Some ''services.ai_svc.router''\<rparr> = REST
   \<and> effective_mode_policy
     \<lparr>name = ''ai_svc'', connection_method = ROUTER, rest_url = Some ''http://localhost:8005'',
      is_active = True, last_health_check = None, health_status = ''degraded'',
      has_router = True, router_path = Some ''services.ai_svc.router''\<rparr> = REST"
  using effective_method_is_policy
    [of "\<lparr>name = ''ai_svc'', connection_method = ROUTER,
          rest_url = Some ''http://localhost:8005'',
          is_active = True, last_health_check = None, health_status = ''degraded'',
          has_router = True, router_path = Some ''services.ai_svc.router''\<rparr>"]
  by (simp add: get_effective_connection_method_def)

section \<open>Properties of the priority queue\<close>

lemmas queue_defs = submit_def submit_begin_def submit_end_def put_nowait_def full_def qsize_def
  execute_request_begin_def execute_request_end_def increment_queue_length_def
  decrement_queue_length_def increment_processed_def increment_admission_rejection_def
  add_error_def

lemma step_queue_maxsize: "queue_maxsize (step q ev) = queue_maxsize q"
  by (cases ev) (auto simp: queue_defs Let_def split: sum.splits prod.splits)

lemma run_queue_maxsize: "queue_maxsize (run q evs) = queue_maxsize q"
  unfolding run_def by (induction evs arbitrary: q) (simp_all add: step_queue_maxsize)

text \<open>The tracked depth of a lane never exceeds the number of requests put into the lane:
  the former is decremented when a call ends, the latter never shrinks.\<close>

lemma step_depth_le_qsize:
  "queue_lengths (stats q) p \<le> qsize q p
   \<Longrightarrow> queue_lengths (stats (step q ev)) p \<le> qsize (step q ev) p"
  by (cases ev) (auto simp: queue_defs Let_def split: sum.splits prod.splits)

lemma run_depth_le_qsize:
  "queue_lengths (stats q) p \<le> qsize q p
   \<Longrightarrow> queue_lengths (stats (run q evs)) p \<le> qsize (run q evs) p"
  unfolding run_def by (induction evs arbitrary: q) (simp_all add: step_depth_le_qsize)

lemma init_depth_le_qsize: "queue_lengths (stats (init_queue cfg)) p \<le> qsize (init_queue cfg) p"
  by (simp add: init_queue_def init_stats_def qsize_def)

lemma submit_begin_full:
  assumes "0 < queue_maxsize q p" and "queue_maxsize q p \<le> qsize q p"
  shows "submit_begin q p t =
           (Inl (queue_full_error p),
            q\<lparr>request_counter := request_counter q + 1,
              stats := increment_admission_rejection (stats q) p\<rparr>)"
  using assms by (simp add: submit_begin_def put_nowait_def full_def qsize_def Let_def)

lemma run_snoc: "run q (evs @ [ev]) = step (run q evs) ev"
  by (simp add: run_def)

lemma step_high_submitted:
  "n < 50 \<Longrightarrow> step (high_submitted n) (Submit HIGH None) = high_submitted (Suc n)"
  by (simp add: high_submitted_def queue_defs Let_def add.commute)

lemma run_replicate_submit_high:
  "n \<le> 50
   \<Longrightarrow> run (init_queue default_config) (replicate n (Submit HIGH None)) = high_submitted n"
proof (induction n)
  case 0
  then show ?case
    by (simp add: run_def init_queue_def default_config_def init_stats_def high_submitted_def
        fun_eq_iff)
next
  case (Suc n)
  have "run (init_queue default_config) (replicate (Suc n) (Submit HIGH None))
      = step (run (init_queue default_config) (replicate n (Submit HIGH None))) (Submit HIGH None)"
    by (metis replicate_Suc replicate_append_same run_snoc)
  also have "\<dots> = step (high_submitted n) (Submit HIGH None)"
    using Suc by simp
  also have "\<dots> = high_submitted (Suc n)"
    using Suc.prems by (intro step_high_submitted) simp
  finally show ?case .
qed

text \<open>
  Claim C3 (the code departs from it). The claim: in every reachable state the number of
  calls executing in a lane is at most the lane's concurrency cap, a call starting only
  while the running count is below the cap. The code counts the running calls but never
  compares the count with \<open>concurrency_limits\<close>: with the default configuration, eleven
  callers that enter \<^verbatim>\<open>submit\<close> at HIGH priority before any operation completes are all
  admitted and all executing, the eleventh while ten are running, which exceeds the cap
  of ten.
\<close>

theorem concurrency_cap_exceeded:
  "active_workers (run (init_queue default_config) (replicate 10 (Submit HIGH None))) HIGH = 10
   \<and> concurrency_limits (run (init_queue default_config) (replicate 10 (Submit HIGH None))) HIGH
       = 10
   \<and> fst (submit_begin (run (init_queue default_config) (replicate 10 (Submit HIGH None)))
             HIGH None) = Inr \<lparr>rid = 11, rpriority = HIGH, rtimeout = None\<rparr>
   \<and> active_workers (run (init_queue default_config) (replicate 11 (Submit HIGH None))) HIGH = 11
   \<and> concurrency_limits (run (init_queue default_config) (replicate 11 (Submit HIGH None))) HIGH
       = 10"
  by (simp add: run_replicate_submit_high high_submitted_def queue_defs Let_def)

text \<open>
  Claim C6, as stated, fails on the code in two ways. At the default configuration a HIGH
  lane that holds fifty requests rejects the next \<^verbatim>\<open>submit\<close> with a plain \<^verbatim>\<open>RuntimeError\<close>
  whose message names the priority, not with an exception type of its own (the
  \<^verbatim>\<open>QueueFull\<close> of asyncio is caught and replaced). And a lane whose cap is configured as
  zero is an unbounded \<^verbatim>\<open>asyncio.Queue\<close>: its depth is at its cap from the start, and a
  \<^verbatim>\<open>submit\<close> is admitted and run.
\<close>

theorem submit_at_capacity_counterexample:
  "fst (submit (run (init_queue default_config) (replicate 50 (Submit HIGH None))) HIGH None
          (Inr (PyInt 1)))
     = Inl (RuntimeError ''Queue full for priority high, request rejected'')
   \<and> RuntimeError ''Queue full for priority high, request rejected'' \<noteq> QueueFull
   \<and> qsize (init_queue zero_cap_config) LOW = queue_maxsize (init_queue zero_cap_config) LOW
   \<and> fst (submit (init_queue zero_cap_config) LOW None (Inr (PyInt 1))) = Inr (PyInt 1)"
proof -
  have "fst (submit (run (init_queue default_config) (replicate 50 (Submit HIGH None))) HIGH None
               (Inr (PyInt 1)))
        = Inl (RuntimeError ''Queue full for priority high, request rejected'')"
    by (simp add: run_replicate_submit_high high_submitted_def queue_defs queue_full_error_def
        Let_def)
  then show ?thesis
    by (simp add: queue_defs init_queue_def init_stats_def zero_cap_config_def Let_def)
qed

text \<open>
  Claim C6, amended. In every state that the queue reaches from its initial state, for a
  lane whose queue-depth cap is positive: when the lane's depth (the tracked
  \<open>queue_lengths\<close>, or the number of requests put into the lane) has reached the cap, a
  further \<^verbatim>\<open>submit\<close> at that priority fails before its suspension point, so without waiting
  for space, with the \<^verbatim>\<open>RuntimeError\<close> whose message names the priority; the operation is
  neither enqueued nor run, and the only changes of state are the request counter and the
  lane's rejected-admission count, which grows by one.
\<close>

theorem submit_at_capacity_rejected:
  assumes reach: "q = run (init_queue cfg) evs"
    and cap: "0 < cfg_queue_limits cfg p"
    and depth: "cfg_queue_limits cfg p \<le> queue_lengths (stats q) p
                \<or> cfg_queue_limits cfg p \<le> qsize q p"
    and q': "q' = q\<lparr>request_counter := request_counter q + 1,
                    stats := (stats q)\<lparr>admission_rejections :=
                      (admission_rejections (stats q))
                        (p := admission_rejections (stats q) p + 1)\<rparr>\<rparr>"
  shows "submit_begin q p t = (Inl (queue_full_error p), q')
       \<and> submit q p t outcome = (Inl (queue_full_error p), q')
       \<and> queue_full_error p
           = RuntimeError (''Queue full for priority '' @ priority_value p
                           @ '', request rejected'')"
proof -
  have m: "queue_maxsize q = cfg_queue_limits cfg"
    using reach by (simp add: run_queue_maxsize init_queue_def)
  have "queue_lengths (stats q) p \<le> qsize q p"
    using reach run_depth_le_qsize [OF init_depth_le_qsize] by simp
  with depth have "cfg_queue_limits cfg p \<le> qsize q p" by auto
  with cap m have "submit_begin q p t =
     (Inl (queue_full_error p),
      q\<lparr>request_counter := request_counter q + 1,
        stats := increment_admission_rejection (stats q) p\<rparr>)"
    by (simp add: submit_begin_full)
  then show ?thesis
    by (simp add: submit_def increment_admission_rejection_def q' queue_full_error_def)
qed

theorem submit_at_capacity_rejected_witness:
  "submit (run (init_queue default_config) (replicate 50 (Submit HIGH None))) HIGH None
      (Inr (PyInt 1)) =
     (Inl (RuntimeError ''Queue full for priority high, request rejected''),
      (run (init_queue default_config) (replicate 50 (Submit HIGH None)))
        \<lparr>request_counter := 51,
         stats := \<lparr>queue_lengths = (\<lambda>_. 0)(HIGH := 50),
                   admission_rejections = (\<lambda>_. 0)(HIGH := 1),
                   processed_count = (\<lambda>_. 0)(HIGH := 50), errors = []\<rparr>\<rparr>)"
proof -
  let ?q = "run (init_queue default_config) (replicate 50 (Submit HIGH None))"
  have lim: "cfg_queue_limits default_config HIGH = 50"
    by (simp add: default_config_def)
  have cap: "0 < cfg_queue_limits default_config HIGH"
    by (simp add: lim)
  have depth: "cfg_queue_limits default_config HIGH \<le> queue_lengths (stats ?q) HIGH
               \<or> cfg_queue_limits default_config HIGH \<le> qsize ?q HIGH"
    by (simp add: run_replicate_submit_high lim high_submitted_def)
  show ?thesis
    using submit_at_capacity_rejected [OF refl cap depth refl, of None "Inr (PyInt 1)"]
    by (simp add: run_replicate_submit_high high_submitted_def queue_full_error_def)
qed

section \<open>Properties of the fan-out primitives\<close>

text \<open>
  \<^verbatim>\<open>PriorityAwareQueue.gather\<close> keeps the input order: with a positive concurrency it returns
  a list as long as the input whose \<open>i\<close>-th element is the outcome of the \<open>i\<close>-th request.
\<close>

lemma gather_input_order:
  assumes "0 < concurrency"
  shows "\<exists>items. gather concurrency requests = Some (Inr items)
           \<and> length items = length requests
           \<and> (\<forall>i < length requests. items ! i = exception_or_value (requests ! i))"
  using assms by (simp add: gather_def)

lemma gather_ok_fail_ok:
  "gather 5 [Inr (PyInt 1), Inl (OtherError ''boom''), Inr (PyInt 3)]
     = Some (Inr [Result (PyInt 1), ExceptionObject (OtherError ''boom''), Result (PyInt 3)])"
  by (simp add: gather_def)

text \<open>\<^verbatim>\<open>parallel\<close> under \<^verbatim>\<open>PARTIAL_OK\<close> returns one element per completed task, in the order of
  completion.\<close>

lemma as_completed_in_range:
  "\<forall>i \<in> set order. i < length ops \<Longrightarrow> as_completed ops order = map ((!) ops) order"
  by (induction order) simp_all

lemma parallel_partial_ok_length:
  assumes "0 < concurrency" and "distinct order" and "set order = {..< length ops}"
  shows "\<exists>items. parallel PARTIAL_OK concurrency ops order = Some (Inr items)
           \<and> length items = length ops
           \<and> (\<forall>k < length ops. items ! k = wrap_outcome (ops ! (order ! k)))"
proof -
  have len: "length order = length ops"
    using assms(2,3) distinct_card [of order] by simp
  have "as_completed ops order = map ((!) ops) order"
    using assms(3) by (intro as_completed_in_range) simp
  then show ?thesis
    using assms(1) len by (simp add: parallel_def)
qed

text \<open>
  Claim C7 (the code departs from it). The claim: under \<^verbatim>\<open>partial_ok\<close> the result list has
  the order of the input, so that \<^verbatim>\<open>[ok, fail, ok]\<close> gives the error in the second slot.
  \<^verbatim>\<open>CallScheduler.parallel\<close> collects the results with \<^verbatim>\<open>asyncio.as_completed\<close>: when the
  failing second operation completes first and the first operation last, the wrapped error
  is the first element of the result and the value of the first operation is the last.
\<close>

theorem parallel_partial_ok_completion_order:
  "parallel PARTIAL_OK 5 [Inr (PyInt 1), Inl (OtherError ''boom''), Inr (PyInt 3)] [1, 2, 0]
     = Some (Inr [ErrorDict ''boom'', Result (PyInt 3), Result (PyInt 1)])"
  by (simp add: parallel_def)

lemma first_failure_decompose:
  "first_failure ops order = Some (k, e) \<Longrightarrow>
     \<exists>pre post. order = pre @ k # post \<and> k < length ops \<and> ops ! k = Inl e
       \<and> (\<forall>j \<in> set pre. j < length ops \<longrightarrow> (\<exists>v. ops ! j = Inr v))
       \<and> set (completed_before_failure ops order) = {j \<in> set pre. j < length ops} \<union> {k}"
proof (induction order)
  case Nil
  then show ?case by simp
next
  case (Cons i rest)
  show ?case
  proof (cases "i < length ops")
    case False
    with Cons.prems have "first_failure ops rest = Some (k, e)" by simp
    from Cons.IH [OF this] obtain pre post where
      p: "rest = pre @ k # post" "k < length ops" "ops ! k = Inl e"
         "\<forall>j \<in> set pre. j < length ops \<longrightarrow> (\<exists>v. ops ! j = Inr v)"
         "set (completed_before_failure ops rest) = {j \<in> set pre. j < length ops} \<union> {k}"
      by blast
    have "i # rest = (i # pre) @ k # post" using p(1) by simp
    moreover have "\<forall>j \<in> set (i # pre). j < length ops \<longrightarrow> (\<exists>v. ops ! j = Inr v)"
      using p(4) False by simp
    moreover have "set (completed_before_failure ops (i # rest))
                     = {j \<in> set (i # pre). j < length ops} \<union> {k}"
      using p(5) False by auto
    ultimately show ?thesis using p(2,3) by blast
  next
    case True
    show ?thesis
    proof (cases "ops ! i")
      case (Inl e')
      with True Cons.prems have "k = i" "e = e'" by simp_all
      then have "i # rest = [] @ k # rest" by simp
      moreover have "set (completed_before_failure ops (i # rest))
                       = {j \<in> set []. j < length ops} \<union> {k}"
        using True Inl \<open>k = i\<close> by simp
      ultimately show ?thesis using True Inl \<open>k = i\<close> \<open>e = e'\<close>
        by (metis empty_iff empty_set)
    next
      case (Inr v)
      with True Cons.prems have "first_failure ops rest = Some (k, e)" by simp
      from Cons.IH [OF this] obtain pre post where
        p: "rest = pre @ k # post" "k < length ops" "ops ! k = Inl e"
           "\<forall>j \<in> set pre. j < length ops \<longrightarrow> (\<exists>v. ops ! j = Inr v)"
           "set (completed_before_failure ops rest) = {j \<in> set pre. j < length ops} \<union> {k}"
        by blast
      have "i # rest = (i # pre) @ k # post" using p(1) by simp
      moreover have "\<forall>j \<in> set (i # pre). j < length ops \<longrightarrow> (\<exists>v. ops ! j = Inr v)"
        using p(4) Inr by simp
      moreover have "set (completed_before_failure ops (i # rest))
                       = {j \<in> set (i # pre). j < length ops} \<union> {k}"
        using p(5) True Inr by auto
      ultimately show ?thesis using p(2,3) by blast
    qed
  qed
qed

lemma first_failure_exists:
  "i \<in> set order \<Longrightarrow> i < length ops \<Longrightarrow> ops ! i = Inl e
   \<Longrightarrow> \<exists>k e'. first_failure ops order = Some (k, e')"
  by (induction order) (auto split: sum.splits)

text \<open>
  Claim C8, as stated, fails on the code: of five operations of which the second fails,
  \<^verbatim>\<open>parallel\<close> under \<^verbatim>\<open>ALL_OR_NOTHING\<close> raises the error, and the three operations that have
  not completed by then are left in flight; none is cancelled.
\<close>

theorem all_or_nothing_siblings_counterexample:
  "parallel ALL_OR_NOTHING 5 five_ops [0, 1, 2, 3, 4] = Some (Inl (OtherError ''boom''))
   \<and> tasks_after_parallel five_ops [0, 1, 2, 3, 4] = [Done, Done, InFlight, InFlight, InFlight]
   \<and> Cancelled \<notin> set (tasks_after_parallel five_ops [0, 1, 2, 3, 4])"
  by (simp add: parallel_def tasks_after_parallel_def five_ops_def upt_rec)

text \<open>
  Claim C8, amended. For every batch run by \<^verbatim>\<open>parallel\<close> under \<^verbatim>\<open>ALL_OR_NOTHING\<close> with a
  positive concurrency in which at least one operation fails (every operation completing
  at some point of the completion order): the call raises the error of the operation that
  is the first to fail in completion order, whatever the operations completed before it
  returned; and when it raises, the operations completed so far are done and every other
  operation is still in flight. No operation is cancelled.
\<close>

theorem all_or_nothing_first_failure:
  assumes conc: "0 < concurrency"
    and order: "set order = {..< length ops}"
    and fails: "i < length ops" "ops ! i = Inl e0"
  shows "\<exists>k e pre post.
           order = pre @ k # post \<and> ops ! k = Inl e
           \<and> (\<forall>j \<in> set pre. \<exists>v. ops ! j = Inr v)
           \<and> parallel ALL_OR_NOTHING concurrency ops order = Some (Inl e)
           \<and> (\<forall>j < length ops. tasks_after_parallel ops order ! j
                  = (if j \<in> set pre \<or> j = k then Done else InFlight))
           \<and> Cancelled \<notin> set (tasks_after_parallel ops order)"
proof -
  have "i \<in> set order" using order fails(1) by simp
  from first_failure_exists [OF this fails] obtain k e where
    ff: "first_failure ops order = Some (k, e)" by blast
  from first_failure_decompose [OF ff] obtain pre post where
    p: "order = pre @ k # post" "k < length ops" "ops ! k = Inl e"
       "\<forall>j \<in> set pre. j < length ops \<longrightarrow> (\<exists>v. ops ! j = Inr v)"
       "set (completed_before_failure ops order) = {j \<in> set pre. j < length ops} \<union> {k}"
    by blast
  have inrange: "\<forall>j \<in> set pre. j < length ops"
    using order p(1) by auto
  have a: "\<forall>j \<in> set pre. \<exists>v. ops ! j = Inr v"
    using p(4) inrange by blast
  have b: "parallel ALL_OR_NOTHING concurrency ops order = Some (Inl e)"
    using conc ff by (simp add: parallel_def)
  have c: "\<forall>j < length ops. tasks_after_parallel ops order ! j
             = (if j \<in> set pre \<or> j = k then Done else InFlight)"
    using p(5) by (auto simp: tasks_after_parallel_def)
  have d: "Cancelled \<notin> set (tasks_after_parallel ops order)"
    by (auto simp: tasks_after_parallel_def)
  show ?thesis using p(1,3) a b c d by blast
qed

theorem all_or_nothing_first_failure_witness:
  "\<exists>k e pre post.
     [0, 1, 2, 3, 4] = pre @ k # post \<and> five_ops ! k = Inl e
     \<and> (\<forall>j \<in> set pre. \<exists>v. five_ops ! j = Inr v)
     \<and> parallel ALL_OR_NOTHING 5 five_ops [0, 1, 2, 3, 4] = Some (Inl e)
     \<and> (\<forall>j < length five_ops. tasks_after_parallel five_ops [0, 1, 2, 3, 4] ! j
            = (if j \<in> set pre \<or> j = k then Done else InFlight))
     \<and> Cancelled \<notin> set (tasks_after_parallel five_ops [0, 1, 2, 3, 4])"
proof -
  have o: "set [0, 1, 2, 3, 4] = {..< length five_ops}"
    by (auto simp: five_ops_def)
  have f: "1 < length five_ops" "five_ops ! 1 = Inl (OtherError ''boom'')"
    by (simp_all add: five_ops_def)
  show ?thesis
    using all_or_nothing_first_failure [of 5 "[0, 1, 2, 3, 4]" five_ops 1, OF _ o f]
    by simp
qed

section \<open>Properties of the cache layer\<close>

subsection \<open>What the cache layer leaves unchanged\<close>

lemma same_registry_refl [simp]: "same_registry w w"
  by (simp add: same_registry_def)

lemma same_registry_trans: "same_registry a b \<Longrightarrow> same_registry b c \<Longrightarrow> same_registry a c"
  by (simp add: same_registry_def)

lemma only_warnings_refl [simp]: "only_warnings w w"
  by (simp add: only_warnings_def)

lemma only_warnings_trans: "only_warnings a b \<Longrightarrow> only_warnings b c \<Longrightarrow> only_warnings a c"
  by (auto simp: only_warnings_def)

lemma is_warning_simps [simp]:
  "is_warning (cache_error_warning n e)" "is_warning (cache_store_warning n e)"
  "is_warning (not_found_warning n)" "is_warning (health_cache_warning n e)"
  by (simp_all add: cache_error_warning_def cache_store_warning_def not_found_warning_def
      health_cache_warning_def)

lemma only_warnings_emit: "is_warning e \<Longrightarrow> only_warnings w w' \<Longrightarrow> only_warnings w (emit w' e)"
  by (auto simp: only_warnings_def emit_def)

lemma same_registry_emit [simp]: "same_registry w (emit w' e) = same_registry w w'"
  by (simp add: same_registry_def emit_def)

lemma consume_fault_frame [simp]:
  "same_registry w (consume_fault w)" "trace (consume_fault w) = trace w"
  "redis (consume_fault w) = redis w" "faults (consume_fault w) = tl (faults w)"
  by (simp_all add: same_registry_def consume_fault_def)

lemma redis_get_frame:
  "same_registry w (snd (redis_get w k))" "trace (snd (redis_get w k)) = trace w"
  "redis (snd (redis_get w k)) = redis w"
  by (simp_all add: redis_get_def)

lemma redis_setex_frame:
  "same_registry w (snd (redis_setex w k ttl v))" "trace (snd (redis_setex w k ttl v)) = trace w"
  by (simp_all add: redis_setex_def same_registry_def consume_fault_def)

lemma redis_delete_frame:
  "same_registry w (snd (redis_delete w k))" "trace (snd (redis_delete w k)) = trace w"
  by (simp_all add: redis_delete_def same_registry_def consume_fault_def)

lemma get_cached_connection_method_frame:
  "same_registry w (snd (get_cached_connection_method w n))"
  "trace (snd (get_cached_connection_method w n)) = trace w"
proof -
  obtain r w1 where g: "redis_get w (method_key n) = (r, w1)"
    by (cases "redis_get w (method_key n)")
  have f1: "same_registry w w1" "trace w1 = trace w"
    using redis_get_frame [of w "method_key n"] g by simp_all
  obtain r2 w2 where d: "redis_delete w1 (method_key n) = (r2, w2)"
    by (cases "redis_delete w1 (method_key n)")
  have f2: "same_registry w1 w2" "trace w2 = trace w1"
    using redis_delete_frame [of w1 "method_key n"] d by simp_all
  have f3: "same_registry w w2" using f1 f2 same_registry_trans by blast
  show "same_registry w (snd (get_cached_connection_method w n))"
    using f1 f3 g d
    by (simp add: get_cached_connection_method_def split: sum.splits option.splits)
  show "trace (snd (get_cached_connection_method w n)) = trace w"
    using f1 f2 g d
    by (simp add: get_cached_connection_method_def split: sum.splits option.splits)
qed

lemma try_cached_method_frame:
  "same_registry w (snd (try_cached_method w n))" "only_warnings w (snd (try_cached_method w n))"
proof -
  obtain r w1 where g: "get_cached_connection_method w n = (r, w1)"
    by (cases "get_cached_connection_method w n")
  have f: "same_registry w w1" "trace w1 = trace w"
    using get_cached_connection_method_frame [of w n] g by simp_all
  have o: "only_warnings w w1" using f by (simp add: only_warnings_def)
  show "same_registry w (snd (try_cached_method w n))"
    using f g by (simp add: try_cached_method_def split: sum.splits)
  show "only_warnings w (snd (try_cached_method w n))"
    using o g by (simp add: try_cached_method_def only_warnings_emit split: sum.splits)
qed

lemma try_cache_method_frame:
  "same_registry w (try_cache_method w n m)" "only_warnings w (try_cache_method w n m)"
proof -
  obtain r w1 where g: "redis_setex w (method_key n) CACHE_TTL (Bytes (method_value m)) = (r, w1)"
    by (cases "redis_setex w (method_key n) CACHE_TTL (Bytes (method_value m))")
  have f: "same_registry w w1" "trace w1 = trace w"
    using redis_setex_frame [of w "method_key n" CACHE_TTL "Bytes (method_value m)"] g
    by simp_all
  have o: "only_warnings w w1" using f by (simp add: only_warnings_def)
  show "same_registry w (try_cache_method w n m)"
    using f g by (simp add: try_cache_method_def cache_connection_method_def split: sum.splits)
  show "only_warnings w (try_cache_method w n m)"
    using o g by (simp add: try_cache_method_def cache_connection_method_def only_warnings_emit
        split: sum.splits)
qed

lemma cached_effective_frame:
  "same_registry w (snd (cached_effective_connection_method w n))"
  "only_warnings w (snd (cached_effective_connection_method w n))"
proof -
  obtain r w1 where g: "try_cached_method w n = (r, w1)" by (cases "try_cached_method w n")
  have f: "same_registry w w1" "only_warnings w w1"
    using try_cached_method_frame [of w n] g by simp_all
  have h: "same_registry w (try_cache_method w1 n m)" "only_warnings w (try_cache_method w1 n m)"
    for m
    using f try_cache_method_frame [of w1 n m] same_registry_trans only_warnings_trans by blast+
  show "same_registry w (snd (cached_effective_connection_method w n))"
    using f g h
    by (simp add: cached_effective_connection_method_def Let_def split: sum.splits option.splits)
  show "only_warnings w (snd (cached_effective_connection_method w n))"
    using f g h
    by (simp add: cached_effective_connection_method_def Let_def only_warnings_emit
        split: sum.splits option.splits)
qed

lemma should_use_router_frame:
  "same_registry w (snd (should_use_router w n))"
  "only_warnings w (snd (should_use_router w n))"
proof -
  obtain r w1 where g: "cached_effective_connection_method w n = (r, w1)"
    by (cases "cached_effective_connection_method w n")
  have f: "same_registry w w1" "only_warnings w w1"
    using cached_effective_frame [of w n] g by simp_all
  show "same_registry w (snd (should_use_router w n))"
    using f g by (simp add: should_use_router_def split: sum.splits)
  show "only_warnings w (snd (should_use_router w n))"
    using f g by (simp add: should_use_router_def split: sum.splits)
qed

subsection \<open>Lookups\<close>

lemma health_key_neq_method_key [simp]:
  "health_key n \<noteq> method_key m" "method_key m \<noteq> health_key n"
  by (auto simp: health_key_def method_key_def dest: arg_cong [where f = last])

text \<open>Without a live entry for the name (or without a usable cache) the lookup misses.\<close>

lemma try_cached_method_miss:
  assumes "\<not> redis_available w \<or> \<not> redis_client w \<or> live_value w (method_key n) = None"
  shows "fst (try_cached_method w n) = None"
  using assms
  by (auto simp: try_cached_method_def get_cached_connection_method_def redis_get_def)

text \<open>The lookup never raises for a non-empty name when the database is reachable, and
  on a miss it is computed from the registry row, or is \<open>REST\<close> for an unknown name.\<close>

lemma lookup_on_miss:
  assumes "n \<noteq> []" and "db_configured w" and "fst (try_cached_method w n) = None"
  shows "fst (cached_effective_connection_method w n)
           = (case db w n of None \<Rightarrow> Inr REST
              | Some service \<Rightarrow> Inr (get_effective_connection_method service))"
proof -
  obtain w1 where g: "try_cached_method w n = (None, w1)"
    using assms(3) by (cases "try_cached_method w n") simp
  have "same_registry w w1"
    using try_cached_method_frame(1) [of w n] g by simp
  then have "db w1 = db w" "db_configured w1" using assms(2) by (simp_all add: same_registry_def)
  then show ?thesis
    using assms(1) g
    by (simp add: cached_effective_connection_method_def get_service_by_name_def Let_def
        split: option.splits)
qed

lemma lookup_never_raises:
  assumes "n \<noteq> []" and "db_configured w"
  shows "\<exists>m. fst (cached_effective_connection_method w n) = Inr m"
proof -
  obtain r w1 where g: "try_cached_method w n = (r, w1)" by (cases "try_cached_method w n")
  have "same_registry w w1"
    using try_cached_method_frame(1) [of w n] g by simp
  then have "db_configured w1" using assms(2) by (simp add: same_registry_def)
  then show ?thesis
    using assms(1) g
    by (simp add: cached_effective_connection_method_def get_service_by_name_def Let_def
        split: option.splits)
qed

lemma lookup_unknown_on_miss:
  assumes "n \<noteq> []" and "db_configured w" and "db w n = None"
    and "fst (try_cached_method w n) = None"
  shows "cached_effective_connection_method w n
           = (Inr REST, emit (snd (try_cached_method w n)) (not_found_warning n))"
proof -
  obtain w1 where g: "try_cached_method w n = (None, w1)"
    using assms(4) by (cases "try_cached_method w n") simp
  have "same_registry w w1"
    using try_cached_method_frame(1) [of w n] g by simp
  then have "db w1 = db w" "db_configured w1" using assms(2) by (simp_all add: same_registry_def)
  then show ?thesis
    using assms(1,3) g
    by (simp add: cached_effective_connection_method_def get_service_by_name_def Let_def)
qed

text \<open>
  Claim C10, as stated, fails on the code: the empty string is a name unknown to the
  registry, and the lookup raises \<^verbatim>\<open>ValueError\<close> for it. Nor is there a fallback when no
  database session factory has been configured: the registry cannot be asked, and the
  lookup of a name that is not in the cache raises \<^verbatim>\<open>DiscoveryError\<close>.
\<close>

theorem unknown_service_lookup_counterexample:
  "db (example_world []) [] = None
   \<and> fst (cached_effective_connection_method (example_world []) [])
       = Inl (ValueError ''service_name must be a non-empty string'')
   \<and> db ((example_world [])\<lparr>db_configured := False\<rparr>) ''user_svc'' = None
   \<and> fst (cached_effective_connection_method ((example_world [])\<lparr>db_configured := False\<rparr>)
            ''user_svc'')
       = Inl (DiscoveryError ''Database session factory not configured'')"
  by (simp add: example_world_def cached_effective_connection_method_def
      invalid_service_name_def try_cached_method_def get_cached_connection_method_def
      redis_get_def next_fault_def live_value_def method_key_def consume_fault_def
      get_service_by_name_def no_session_factory_def)

text \<open>What the guarded read of the cache yields: the mode of a live entry, provided the
  cache is in use, the \<^verbatim>\<open>GET\<close> succeeds and the bytes are a member of the enum.\<close>

lemma try_cached_method_result:
  "fst (try_cached_method w n)
     = (if redis_available w \<and> redis_client w \<and> \<not> next_fault w
        then (case live_value w (method_key n) of
                None \<Rightarrow> None
              | Some c \<Rightarrow> if cached_truthy c then decode_method c else None)
        else None)"
proof -
  obtain r2 w2 where d: "redis_delete (consume_fault w) (method_key n) = (r2, w2)"
    by (cases "redis_delete (consume_fault w) (method_key n)")
  show ?thesis
    using d
    by (simp add: try_cached_method_def get_cached_connection_method_def redis_get_def
        split: option.splits sum.splits)
qed

lemma lookup_on_hit:
  assumes "n \<noteq> []" and "fst (try_cached_method w n) = Some m"
  shows "fst (cached_effective_connection_method w n) = Inr m"
  using assms
  by (cases "try_cached_method w n") (simp add: cached_effective_connection_method_def)

lemma should_use_router_result:
  assumes "n \<noteq> []" and "fst (cached_effective_connection_method w n) = Inr m"
  shows "fst (should_use_router w n) = Inr (m = ROUTER)"
  using assms
  by (cases "cached_effective_connection_method w n") (simp add: should_use_router_def)

text \<open>
  Claim C10, amended. For every non-empty service name that is unknown to the registry,
  with a database session factory configured, the cache-layer lookup never raises, and
  neither does \<^verbatim>\<open>should_use_router\<close>. When the cache is in use, the \<^verbatim>\<open>GET\<close> succeeds and a
  live entry for the name holds a valid mode, the lookup returns that cached mode; in every
  other case it returns the default \<open>REST\<close> and logs the warning that the service was not
  found.
\<close>

theorem unknown_service_lookup:
  assumes "n \<noteq> []" and "db_configured w" and "db w n = None"
  shows "(\<exists>m. fst (cached_effective_connection_method w n) = Inr m)
       \<and> (\<exists>b. fst (should_use_router w n) = Inr b)
       \<and> (\<forall>c m. redis_available w \<and> redis_client w \<and> \<not> next_fault w
                 \<and> live_value w (method_key n) = Some c \<and> cached_truthy c
                 \<and> decode_method c = Some m
              \<longrightarrow> fst (cached_effective_connection_method w n) = Inr m
                  \<and> fst (should_use_router w n) = Inr (m = ROUTER))
       \<and> (\<not> (redis_available w \<and> redis_client w \<and> \<not> next_fault w
               \<and> (\<exists>c m. live_value w (method_key n) = Some c \<and> cached_truthy c
                         \<and> decode_method c = Some m))
              \<longrightarrow> fst (cached_effective_connection_method w n) = Inr REST
                  \<and> fst (should_use_router w n) = Inr False
                  \<and> (\<exists>evs. trace (snd (cached_effective_connection_method w n))
                             = trace w @ evs @ [not_found_warning n]))"
proof -
  from lookup_never_raises [OF assms(1,2)] obtain m0 where
    m0: "fst (cached_effective_connection_method w n) = Inr m0" by blast
  have s: "\<exists>b. fst (should_use_router w n) = Inr b"
    using should_use_router_result [OF assms(1) m0] by blast
  have hit: "fst (cached_effective_connection_method w n) = Inr m
             \<and> fst (should_use_router w n) = Inr (m = ROUTER)"
    if h: "redis_available w \<and> redis_client w \<and> \<not> next_fault w
           \<and> live_value w (method_key n) = Some c \<and> cached_truthy c
           \<and> decode_method c = Some m" for c m
  proof -
    have "fst (try_cached_method w n) = Some m"
      using h by (simp add: try_cached_method_result)
    then have "fst (cached_effective_connection_method w n) = Inr m"
      using lookup_on_hit [OF assms(1)] by simp
    then show ?thesis
      using should_use_router_result [OF assms(1)] by simp
  qed
  have miss: "fst (cached_effective_connection_method w n) = Inr REST
              \<and> fst (should_use_router w n) = Inr False
              \<and> (\<exists>evs. trace (snd (cached_effective_connection_method w n))
                         = trace w @ evs @ [not_found_warning n])"
    if h: "\<not> (redis_available w \<and> redis_client w \<and> \<not> next_fault w
               \<and> (\<exists>c m. live_value w (method_key n) = Some c \<and> cached_truthy c
                         \<and> decode_method c = Some m))"
  proof -
    have t: "fst (try_cached_method w n) = None"
      using h by (auto simp: try_cached_method_result split: option.splits)
    have eq: "cached_effective_connection_method w n
                = (Inr REST, emit (snd (try_cached_method w n)) (not_found_warning n))"
      using lookup_unknown_on_miss [OF assms t] .
    obtain evs where "trace (snd (try_cached_method w n)) = trace w @ evs"
      using try_cached_method_frame(2) [of w n] by (auto simp: only_warnings_def)
    then have tr: "\<exists>evs. trace (snd (cached_effective_connection_method w n))
                          = trace w @ evs @ [not_found_warning n]"
      using eq by (simp add: emit_def)
    have r: "fst (cached_effective_connection_method w n) = Inr REST"
      using eq by simp
    show ?thesis
      using r tr should_use_router_result [OF assms(1) r] by simp
  qed
  show ?thesis
    using m0 s hit miss by blast
qed

theorem unknown_service_lookup_witness:
  "fst (cached_effective_connection_method (example_world []) ''user_svc'') = Inr REST
   \<and> (\<exists>evs. trace (snd (cached_effective_connection_method (example_world []) ''user_svc''))
              = trace (example_world []) @ evs @ [not_found_warning ''user_svc''])
   \<and> fst (cached_effective_connection_method ((example_world [])\<lparr>db := Map.empty\<rparr>) ''ai_svc'')
       = Inr ROUTER"
proof -
  have a: "''user_svc'' \<noteq> []" by simp
  have b: "db_configured (example_world [])" by (simp add: example_world_def)
  have c: "db (example_world []) ''user_svc'' = None" by (simp add: example_world_def)
  have d: "live_value (example_world []) (method_key ''user_svc'') = None"
    by (simp add: example_world_def live_value_def method_key_def)
  have miss: "fst (cached_effective_connection_method (example_world []) ''user_svc'') = Inr REST
              \<and> (\<exists>evs. trace (snd (cached_effective_connection_method (example_world [])
                                       ''user_svc''))
                         = trace (example_world []) @ evs @ [not_found_warning ''user_svc''])"
    using unknown_service_lookup [OF a b c] d by simp
  let ?w = "(example_world [])\<lparr>db := Map.empty\<rparr>"
  have a': "''ai_svc'' \<noteq> []" by simp
  have b': "db_configured ?w" by (simp add: example_world_def)
  have c': "db ?w ''ai_svc'' = None" by simp
  have d': "redis_available ?w \<and> redis_client ?w \<and> \<not> next_fault ?w
            \<and> live_value ?w (method_key ''ai_svc'') = Some (Bytes ''router'')
            \<and> cached_truthy (Bytes ''router'') \<and> decode_method (Bytes ''router'') = Some ROUTER"
    by (simp add: example_world_def next_fault_def live_value_def ConnectionMethod_of_def)
  have hit: "fst (cached_effective_connection_method ?w ''ai_svc'') = Inr ROUTER"
    using unknown_service_lookup [OF a' b' c'] d' by blast
  show ?thesis using miss hit by simp
qed

subsection \<open>Health writes\<close>

lemma next_fault_consume:
  "commands_succeed (Suc k) w = (\<not> next_fault w \<and> commands_succeed k (consume_fault w))"
  by (cases "faults w") (auto simp: commands_succeed_def next_fault_def consume_fault_def)

lemma commands_succeed_two:
  "commands_succeed 2 w = (\<not> next_fault w \<and> \<not> next_fault (consume_fault w))"
proof -
  have z: "commands_succeed 0 v" for v
    by (simp add: commands_succeed_def)
  have "commands_succeed 2 w = commands_succeed (Suc (Suc 0)) w"
    by (simp add: numeral_2_eq_2)
  also have "\<dots> = (\<not> next_fault w \<and> commands_succeed (Suc 0) (consume_fault w))"
    by (rule next_fault_consume)
  also have "commands_succeed (Suc 0) (consume_fault w)
               = (\<not> next_fault (consume_fault w)
                  \<and> commands_succeed 0 (consume_fault (consume_fault w)))"
    by (rule next_fault_consume)
  finally show ?thesis using z by simp
qed

lemma advance_frame [simp]:
  "db (advance dt w) = db w" "db_configured (advance dt w) = db_configured w"
  "redis_available (advance dt w) = redis_available w"
  "redis_client (advance dt w) = redis_client w" "redis (advance dt w) = redis w"
  by (simp_all add: advance_def)

lemmas health_write_defs = update_service_health_cached_def update_health_status_def
  redis_setex_def redis_delete_def emit_def consume_fault_def Let_def

text \<open>With the database reachable a health write returns normally and changes, in the
  registry, the health columns of the named row and nothing else.\<close>

lemma health_write_registry:
  assumes "db_configured w"
  shows "fst (update_service_health_cached w n status ts) = Inr ()"
    and "db (snd (update_service_health_cached w n status ts))
           = (case db w n of None \<Rightarrow> db w
              | Some s \<Rightarrow> (db w)(n \<mapsto> s\<lparr>health_status := status,
                     last_health_check := Some (case ts of None \<Rightarrow> clock w | Some t \<Rightarrow> t)\<rparr>))"
    and "same_registry (w\<lparr>db := db (snd (update_service_health_cached w n status ts))\<rparr>)
           (snd (update_service_health_cached w n status ts))"
  using assms
  by (auto simp: health_write_defs same_registry_def split: option.splits)

lemma health_write_removes_method:
  assumes "db_configured w" and "redis_available w" and "redis_client w"
    and "commands_succeed 2 w"
  shows "redis (snd (update_service_health_cached w n status ts)) (method_key n) = None"
  using assms
  by (auto simp: health_write_defs commands_succeed_two next_fault_def split: option.splits)

text \<open>
  Claim C2, as stated, fails on the code. The cache holds \<open>ROUTER\<close> for a healthy service;
  the health write to \<^verbatim>\<open>down\<close> reaches the database, but the Redis server rejects the
  \<^verbatim>\<open>SETEX\<close> of the health snapshot (the first command of the script fails), the handler logs
  the error, and the \<^verbatim>\<open>DEL\<close> of the cached method is never issued. Ten ticks later, within
  the TTL of 300, the lookup still answers \<open>ROUTER\<close>, although the registry row now gives
  \<open>DISABLED\<close>.
\<close>

theorem health_write_stale_counterexample:
  "fst (update_service_health_cached (example_world [True]) ''ai_svc'' ''down'' None) = Inr ()
   \<and> map_option health_status
        (db (snd (update_service_health_cached (example_world [True]) ''ai_svc'' ''down'' None))
            ''ai_svc'') = Some ''down''
   \<and> redis (snd (update_service_health_cached (example_world [True]) ''ai_svc'' ''down'' None))
        (method_key ''ai_svc'') = Some (Bytes ''router'', 300)
   \<and> fst (cached_effective_connection_method
            (advance 10
               (snd (update_service_health_cached (example_world [True]) ''ai_svc'' ''down''
                       None)))
            ''ai_svc'') = Inr ROUTER"
  by (simp add: health_write_defs example_world_def next_fault_def advance_def
      cached_effective_connection_method_def try_cached_method_def
      get_cached_connection_method_def redis_get_def live_value_def ConnectionMethod_of_def)

lemma health_write_returned:
  "update_service_health_cached w n status ts = (Inr u, w') \<Longrightarrow> db_configured w"
  by (cases "db_configured w") (simp_all add: health_write_defs)

text \<open>
  Claim C2, amended. For every service name \<open>n\<close>: after a health write for \<open>n\<close> through the
  cache layer during which Redis accepts the two commands of the write (or with the cache
  switched off or without a client), the cached effective-mode entry for \<open>n\<close> is gone from
  the cache in use, and the next lookup for \<open>n\<close>, however soon (after any \<open>dt\<close>, also \<open>0\<close>),
  does not come from the cache: it is computed from the registry row as the write left it
  (\<open>REST\<close> if there is no row; the empty name is rejected as always), so that after a write
  of \<^verbatim>\<open>down\<close> it is not \<open>ROUTER\<close>.
\<close>

theorem health_write_invalidates_method_cache:
  assumes written: "update_service_health_cached w n status ts = (Inr (), w')"
    and store: "\<not> redis_available w \<or> \<not> redis_client w \<or> commands_succeed 2 w"
  shows "(redis_available w \<and> redis_client w \<longrightarrow> redis w' (method_key n) = None)
       \<and> (\<forall>service. db w' n = Some service \<longrightarrow> health_status service = status)
       \<and> fst (cached_effective_connection_method (advance dt w') n)
           = (if n = [] then Inl invalid_service_name
              else case db w' n of None \<Rightarrow> Inr REST
                   | Some service \<Rightarrow> Inr (get_effective_connection_method service))
       \<and> (status = ''down''
            \<longrightarrow> fst (cached_effective_connection_method (advance dt w') n) \<noteq> Inr ROUTER)"
proof -
  have dbc: "db_configured w"
    using written by (rule health_write_returned)
  have w': "w' = snd (update_service_health_cached w n status ts)"
    using written by simp
  have same: "same_registry (w\<lparr>db := db w'\<rparr>) w'"
    using health_write_registry(3) [OF dbc] w' by simp
  then have flags: "db_configured w'" "redis_available w' = redis_available w"
    "redis_client w' = redis_client w"
    using dbc by (simp_all add: same_registry_def)
  have removed: "redis w' (method_key n) = None" if "redis_available w" "redis_client w"
    using health_write_removes_method [OF dbc that] store that w' by simp
  have row: "health_status service = status" if "db w' n = Some service" for service
    using that health_write_registry(2) [OF dbc, of n status ts] w'
    by (auto split: option.splits)
  have miss: "\<not> redis_available (advance dt w') \<or> \<not> redis_client (advance dt w')
              \<or> live_value (advance dt w') (method_key n) = None"
    using removed flags by (auto simp: live_value_def)
  have look: "fst (cached_effective_connection_method (advance dt w') n)
                = (if n = [] then Inl invalid_service_name
                   else case db w' n of None \<Rightarrow> Inr REST
                        | Some service \<Rightarrow> Inr (get_effective_connection_method service))"
  proof (cases "n = []")
    case True
    then show ?thesis by (simp add: cached_effective_connection_method_def)
  next
    case False
    then show ?thesis
      using lookup_on_miss [OF False _ try_cached_method_miss [OF miss]] flags(1) by simp
  qed
  have down: "fst (cached_effective_connection_method (advance dt w') n) \<noteq> Inr ROUTER"
    if "status = ''down''"
  proof (cases "db w' n")
    case None
    then show ?thesis using look by simp
  next
    case (Some service)
    then have "health_status service = ''down''" using row that by simp
    then have "get_effective_connection_method service \<noteq> ROUTER"
      by (simp add: get_effective_connection_method_def)
    then show ?thesis using look Some by simp
  qed
  show ?thesis using removed row look down by blast
qed

theorem health_write_invalidates_method_cache_witness:
  "redis (snd (update_service_health_cached (example_world []) ''ai_svc'' ''down'' None))
     (method_key ''ai_svc'') = None
   \<and> fst (cached_effective_connection_method
            (advance 10
               (snd (update_service_health_cached (example_world []) ''ai_svc'' ''down'' None)))
            ''ai_svc'') = Inr DISABLED"
proof -
  let ?w' = "snd (update_service_health_cached (example_world []) ''ai_svc'' ''down'' None)"
  have b: "db_configured (example_world [])" by (simp add: example_world_def)
  have a: "update_service_health_cached (example_world []) ''ai_svc'' ''down'' None = (Inr (), ?w')"
    using health_write_registry(1) [OF b, of "''ai_svc''" "''down''" None]
    by (cases "update_service_health_cached (example_world []) ''ai_svc'' ''down'' None") simp
  have c: "\<not> redis_available (example_world []) \<or> \<not> redis_client (example_world [])
           \<or> commands_succeed 2 (example_world [])"
    by (simp add: example_world_def commands_succeed_def)
  have d: "redis_available (example_world []) \<and> redis_client (example_world [])"
    by (simp add: example_world_def)
  have e: "db ?w' ''ai_svc''
           = Some (ai_svc\<lparr>health_status := ''down'', last_health_check := Some 0\<rparr>)"
    using health_write_registry(2) [OF b, of "''ai_svc''" "''down''" None]
    by (simp add: example_world_def)
  have f: "get_effective_connection_method
             (ai_svc\<lparr>health_status := ''down'', last_health_check := Some 0\<rparr>) = DISABLED"
    by (simp add: get_effective_connection_method_def ai_svc_def)
  show ?thesis
    using health_write_invalidates_method_cache [OF a c, of 10] d e f
    by simp
qed

section \<open>Properties of the service proxy\<close>

subsection \<open>The parts of a call\<close>

text \<open>When the first part of a call succeeds, the database is reachable, the row it found
  is the row of the name and is active, and only warnings have been written.\<close>

lemma resolve_service_ok:
  assumes "resolve_service env w n = (Inr (service, use_router, eff), w1)"
  shows "db_configured w \<and> db w n = Some service \<and> is_active service
         \<and> same_registry w w1 \<and> only_warnings w w1"
proof -
  obtain r1 wa where s: "should_use_router w n = (r1, wa)"
    by (cases "should_use_router w n")
  obtain r2 wb where c: "cached_effective_connection_method wa n = (r2, wb)"
    by (cases "cached_effective_connection_method wa n")
  have fa: "same_registry w wa" "only_warnings w wa"
    using should_use_router_frame [of w n] s by simp_all
  have fb: "same_registry wa wb" "only_warnings wa wb"
    using cached_effective_frame [of wa n] c by simp_all
  have fc: "same_registry w wb" "only_warnings w wb"
    using fa fb same_registry_trans only_warnings_trans by blast+
  show ?thesis
    using assms s c fc
    by (auto simp: resolve_service_def get_service_by_name_def
        split: option.splits if_splits sum.splits)
qed

lemma is_warning_health_update [simp]:
  "\<not> is_warning (DbHealthUpdate n st)" "\<not> is_warning (RouterCall a b)"
  "\<not> is_warning (HttpPost u)" "\<not> is_warning (router_failed_line n m e)"
  "\<not> is_warning (rest_failed_line n m e)"
  by (simp_all add: router_failed_line_def rest_failed_line_def)

text \<open>A health write for a registered service, in full.\<close>

lemma health_write_registered:
  assumes "db_configured w" and "db w n = Some s"
  shows "\<exists>w' lw. update_service_health_cached w n status (Some t) = (Inr (), w')
           \<and> db w' = (db w)(n \<mapsto> s\<lparr>health_status := status, last_health_check := Some t\<rparr>)
           \<and> db_configured w' \<and> router_cache w' = router_cache w \<and> clock w' = clock w
           \<and> trace w' = trace w @ DbHealthUpdate n status # lw \<and> list_all is_warning lw
           \<and> (redis_available w \<and> redis_client w \<and> \<not> next_fault w
                \<longrightarrow> redis w' (health_key n)
                      = Some (HealthData status t, clock w + HEALTH_CACHE_TTL))
           \<and> (redis w' (health_key n) = redis w (health_key n)
                \<or> redis w' (health_key n)
                    = Some (HealthData status t, clock w + HEALTH_CACHE_TTL))
           \<and> (\<not> (redis_available w \<and> redis_client w \<and> \<not> next_fault w)
                \<longrightarrow> redis w' = redis w)"
  using assms by (auto simp: health_write_defs next_fault_def)

lemma call_via_router_frame:
  "\<exists>rc. db (snd (call_via_router env w s m a)) = db w
        \<and> db_configured (snd (call_via_router env w s m a)) = db_configured w
        \<and> clock (snd (call_via_router env w s m a)) = clock w
        \<and> redis_available (snd (call_via_router env w s m a)) = redis_available w
        \<and> redis_client (snd (call_via_router env w s m a)) = redis_client w
        \<and> redis (snd (call_via_router env w s m a)) = redis w
        \<and> faults (snd (call_via_router env w s m a)) = faults w
        \<and> trace (snd (call_via_router env w s m a)) = trace w @ rc
        \<and> set rc \<subseteq> {RouterCall (name s) m}"
  by (auto simp: call_via_router_def get_router_module_def emit_def
      split: option.splits sum.splits exn.splits)

lemma call_via_rest_world:
  "rest_url s = Some u
   \<Longrightarrow> snd (call_via_rest env w s m a) = emit w (HttpPost (endpoint_url u m))"
  by (simp add: call_via_rest_def Let_def split: http_outcome.splits)

lemma call_via_rest_result:
  "fst (call_via_rest env w s m a) = fst (call_via_rest env w' s m a)"
  by (auto simp: call_via_rest_def Let_def split: option.splits http_outcome.splits)

text \<open>
  After a failed router attempt the call prints the failure, records the health
  \<^verbatim>\<open>degraded\<close> in the registry (and in the cache, if Redis takes the write), and only then
  goes on to the REST attempt, with \<^verbatim>\<open>["router"]\<close> as the methods attempted so far.
\<close>

lemma execute_after_router_failure:
  assumes res: "resolve_service env w n = (Inr (service, use_router, eff), w1)"
    and att: "use_router" "has_router service"
    and fail: "fst (call_via_router env w1 service m args) = Inl e1"
  shows "\<exists>w3 rc lw.
           execute_service_call env w n m args
             = rest_attempt env w3 n service eff [''router''] m args
           \<and> db w3 = (db w)(n \<mapsto> service\<lparr>health_status := ''degraded'',
                                             last_health_check := Some (clock w)\<rparr>)
           \<and> db_configured w3 \<and> clock w3 = clock w
           \<and> trace w3 = trace w1 @ rc @ [router_failed_line n m e1, DbHealthUpdate n ''degraded'']
                         @ lw
           \<and> set rc \<subseteq> {RouterCall (name service) m} \<and> list_all is_warning lw
           \<and> (redis_available w \<and> redis_client w \<and> \<not> next_fault w1
                \<longrightarrow> redis w3 (health_key n)
                      = Some (HealthData ''degraded'' (clock w), clock w + HEALTH_CACHE_TTL))
           \<and> (redis w3 (health_key n) = redis w1 (health_key n)
                \<or> redis w3 (health_key n)
                    = Some (HealthData ''degraded'' (clock w), clock w + HEALTH_CACHE_TTL))
           \<and> (\<not> (redis_available w \<and> redis_client w \<and> \<not> next_fault w1)
                \<longrightarrow> redis w3 = redis w1)"
proof -
  from resolve_service_ok [OF res] have
    r: "db_configured w" "db w n = Some service" "same_registry w w1" by simp_all
  obtain wr where cr: "call_via_router env w1 service m args = (Inl e1, wr)"
    using fail by (cases "call_via_router env w1 service m args") simp
  from call_via_router_frame [of env w1 service m args] cr obtain rc where
    f: "db wr = db w1" "db_configured wr = db_configured w1" "clock wr = clock w1"
       "redis_available wr = redis_available w1" "redis_client wr = redis_client w1"
       "faults wr = faults w1" "trace wr = trace w1 @ rc" "set rc \<subseteq> {RouterCall (name service) m}"
       "redis wr = redis w1"
    by auto
  let ?w2 = "emit wr (router_failed_line n m e1)"
  have w2: "db_configured ?w2" "db ?w2 n = Some service" "clock ?w2 = clock w"
    "redis_available ?w2 = redis_available w" "redis_client ?w2 = redis_client w"
    "next_fault ?w2 = next_fault w1" "db ?w2 = db w"
    "trace ?w2 = trace w1 @ rc @ [router_failed_line n m e1]"
    "redis ?w2 = redis w1"
    using r f by (simp_all add: emit_def same_registry_def next_fault_def)
  from health_write_registered [OF w2(1,2), of "''degraded''" "clock ?w2"] obtain w3 lw where
    h: "update_service_health_cached ?w2 n ''degraded'' (Some (clock ?w2)) = (Inr (), w3)"
       "db w3 = (db ?w2)(n \<mapsto> service\<lparr>health_status := ''degraded'',
                                         last_health_check := Some (clock ?w2)\<rparr>)"
       "db_configured w3" "clock w3 = clock ?w2"
       "trace w3 = trace ?w2 @ DbHealthUpdate n ''degraded'' # lw" "list_all is_warning lw"
       "redis_available ?w2 \<and> redis_client ?w2 \<and> \<not> next_fault ?w2
          \<longrightarrow> redis w3 (health_key n)
                = Some (HealthData ''degraded'' (clock ?w2), clock ?w2 + HEALTH_CACHE_TTL)"
       "redis w3 (health_key n) = redis ?w2 (health_key n)
        \<or> redis w3 (health_key n)
            = Some (HealthData ''degraded'' (clock ?w2), clock ?w2 + HEALTH_CACHE_TTL)"
       "\<not> (redis_available ?w2 \<and> redis_client ?w2 \<and> \<not> next_fault ?w2)
          \<longrightarrow> redis w3 = redis ?w2"
    by blast
  have ra: "router_attempt env w1 n service use_router m args = (Continue [''router''], w3)"
    using att cr h(1) by (simp add: router_attempt_def Let_def)
  have ex: "execute_service_call env w n m args
              = rest_attempt env w3 n service eff [''router''] m args"
    using res ra by (simp add: execute_service_call_def)
  have tr: "trace w3 = trace w1 @ rc @ [router_failed_line n m e1, DbHealthUpdate n ''degraded'']
                       @ lw"
    using h(5) w2(8) by simp
  have cache: "redis_available w \<and> redis_client w \<and> \<not> next_fault w1
                 \<longrightarrow> redis w3 (health_key n)
                       = Some (HealthData ''degraded'' (clock w), clock w + HEALTH_CACHE_TTL)"
    using h(7) w2(3,4,5,6) by simp
  have cache': "redis w3 (health_key n) = redis w1 (health_key n)
                \<or> redis w3 (health_key n)
                    = Some (HealthData ''degraded'' (clock w), clock w + HEALTH_CACHE_TTL)"
    using h(8) w2(3,9) by simp
  have dbw3: "db w3 = (db w)(n \<mapsto> service\<lparr>health_status := ''degraded'',
                                             last_health_check := Some (clock w)\<rparr>)"
    using h(2) w2(3,7) by simp
  have ck: "clock w3 = clock w" using h(4) w2(3) by simp
  have kept: "\<not> (redis_available w \<and> redis_client w \<and> \<not> next_fault w1)
                \<longrightarrow> redis w3 = redis w1"
    using h(9) w2(4,5,6,9) by simp
  show ?thesis
    by (rule exI [of _ w3], rule exI [of _ rc], rule exI [of _ lw])
      (use ex dbw3 h(3) ck tr f(8) h(6) cache cache' kept in blast)
qed

lemma rest_attempt_success:
  assumes "rest_url service = Some url" and "url \<noteq> []" and "eff \<noteq> DISABLED"
    and "fst (call_via_rest env w0 service m args) = Inr v"
  shows "rest_attempt env w3 n service eff attempted m args
           = (Inr v, emit w3 (HttpPost (endpoint_url url m)))"
proof -
  have "fst (call_via_rest env w3 service m args) = Inr v"
    using assms(4) call_via_rest_result [of env w3 service m args w0] by simp
  moreover have "snd (call_via_rest env w3 service m args) = emit w3 (HttpPost (endpoint_url url m))"
    using call_via_rest_world [OF assms(1)] .
  ultimately have "call_via_rest env w3 service m args
                     = (Inr v, emit w3 (HttpPost (endpoint_url url m)))"
    by (cases "call_via_rest env w3 service m args") simp
  then show ?thesis
    using assms(1,2,3) by (simp add: rest_attempt_def)
qed

lemma rest_attempt_failure:
  assumes "rest_url service = Some url" and "url \<noteq> []" and "eff \<noteq> DISABLED"
    and "fst (call_via_rest env w0 service m args) = Inl e2"
    and "db_configured w3" and "db w3 n = Some row"
  shows "\<exists>w5. rest_attempt env w3 n service eff attempted m args
                 = (Inl (ServiceUnavailableError n (attempted @ [''rest''])), w5)
              \<and> map_option health_status (db w5 n) = Some ''down''
              \<and> HttpPost (endpoint_url url m) \<in> set (trace w5)"
proof -
  let ?w4 = "emit w3 (HttpPost (endpoint_url url m))"
  have "fst (call_via_rest env w3 service m args) = Inl e2"
    using assms(4) call_via_rest_result [of env w3 service m args w0] by simp
  moreover have "snd (call_via_rest env w3 service m args) = ?w4"
    using call_via_rest_world [OF assms(1)] .
  ultimately have c: "call_via_rest env w3 service m args = (Inl e2, ?w4)"
    by (cases "call_via_rest env w3 service m args") simp
  let ?w4' = "emit ?w4 (rest_failed_line n m e2)"
  have d: "db_configured ?w4'" "db ?w4' n = Some row"
    using assms(5,6) by (simp_all add: emit_def)
  from health_write_registered [OF d, of "''down''" "clock ?w4'"] obtain w5 lw where
    h: "update_service_health_cached ?w4' n ''down'' (Some (clock ?w4')) = (Inr (), w5)"
       "db w5 = (db ?w4')(n \<mapsto> row\<lparr>health_status := ''down'',
                                      last_health_check := Some (clock ?w4')\<rparr>)"
       "trace w5 = trace ?w4' @ DbHealthUpdate n ''down'' # lw"
    by blast
  have "rest_attempt env w3 n service eff attempted m args
          = (Inl (ServiceUnavailableError n (attempted @ [''rest''])), w5)"
    using assms(1,2,3) c h(1) by (simp add: rest_attempt_def Let_def)
  moreover have "map_option health_status (db w5 n) = Some ''down''"
    using h(2) by simp
  moreover have "HttpPost (endpoint_url url m) \<in> set (trace w5)"
    using h(3) by (simp add: emit_def)
  ultimately show ?thesis by blast
qed

lemma rest_attempt_skipped:
  "\<not> (truthy (rest_url service) \<and> eff \<noteq> DISABLED)
   \<Longrightarrow> rest_attempt env w3 n service eff attempted m args
         = (Inl (ServiceUnavailableError n attempted), w3)"
  by (auto simp: rest_attempt_def)

lemma truthy_Some: "truthy x = (\<exists>u. x = Some u \<and> u \<noteq> [])"
  by (cases x) simp_all

text \<open>Both attempts made, both failed.\<close>

lemma execute_both_fail:
  assumes res: "resolve_service env w n = (Inr (service, use_router, eff), w1)"
    and local_attempted: "use_router \<and> has_router service"
    and local_fails: "fst (call_via_router env w1 service m args) = Inl e1"
    and remote_attempted: "truthy (rest_url service) \<and> eff \<noteq> DISABLED"
    and remote_fails: "fst (call_via_rest env w1 service m args) = Inl e2"
  shows "fst (execute_service_call env w n m args)
           = Inl (ServiceUnavailableError n [''router'', ''rest''])
       \<and> map_option health_status (db (snd (execute_service_call env w n m args)) n)
           = Some ''down''"
proof -
  from execute_after_router_failure [OF res _ _ local_fails] local_attempted obtain w3 where
    a: "execute_service_call env w n m args = rest_attempt env w3 n service eff [''router''] m args"
       "db w3 = (db w)(n \<mapsto> service\<lparr>health_status := ''degraded'',
                                         last_health_check := Some (clock w)\<rparr>)"
       "db_configured w3"
    by blast
  obtain url where u: "rest_url service = Some url" "url \<noteq> []"
    using remote_attempted by (auto simp: truthy_Some)
  have row: "db w3 n = Some (service\<lparr>health_status := ''degraded'',
                                     last_health_check := Some (clock w)\<rparr>)"
    using a(2) by simp
  from rest_attempt_failure [OF u _ remote_fails a(3) row, of eff "[''router'']"]
    remote_attempted
  obtain w5 where
    "rest_attempt env w3 n service eff [''router''] m args
       = (Inl (ServiceUnavailableError n ([''router''] @ [''rest''])), w5)"
    "map_option health_status (db w5 n) = Some ''down''"
    by blast
  then show ?thesis using a(1) by simp
qed

subsection \<open>The example service\<close>

lemma resolve_example:
  "cached_registry_error env = None
   \<Longrightarrow> resolve_service env (example_world []) ''ai_svc''
         = (Inr (ai_svc, True, ROUTER), example_world [])"
  by (simp add: resolve_service_def get_service_by_name_def should_use_router_def
      cached_effective_connection_method_def try_cached_method_def
      get_cached_connection_method_def redis_get_def live_value_def next_fault_def
      consume_fault_def ConnectionMethod_of_def example_world_def ai_svc_def)

lemma example_world_facts:
  "redis_available (example_world fs)" "redis_client (example_world fs)"
  "clock (example_world fs) = 0" "trace (example_world fs) = []"
  "next_fault (example_world []) = False"
  by (simp_all add: example_world_def next_fault_def)

lemma ai_svc_facts:
  "has_router ai_svc" "rest_url ai_svc = Some ''http://localhost:8005/''" "name ai_svc = ''ai_svc''"
  "endpoint_url ''http://localhost:8005/'' ''summarize'' = ''http://localhost:8005/summarize''"
  by (simp_all add: ai_svc_def endpoint_url_def rstrip_slash_def)

lemma raising_router_call:
  "import_module env = (\<lambda>path. Inr raising_module)
   \<Longrightarrow> fst (call_via_router env (example_world []) ai_svc ''summarize'' [])
         = Inl (OtherError ''boom'')"
  by (simp add: call_via_router_def get_router_module_def example_world_def ai_svc_def
      raising_module_def)

lemma raising_router_call_uncached:
  "import_module env = (\<lambda>path. Inr raising_module) \<Longrightarrow> router_cache w ''ai_svc'' = None
   \<Longrightarrow> fst (call_via_router env w ai_svc ''summarize'' []) = Inl (OtherError ''boom'')"
  by (simp add: call_via_router_def get_router_module_def ai_svc_def raising_module_def)

lemma resolve_uncached:
  "cached_registry_error env = None
   \<Longrightarrow> resolve_service env uncached_world ''ai_svc''
         = (Inr (ai_svc, True, ROUTER), uncached_world)"
  by (simp add: resolve_service_def get_service_by_name_def should_use_router_def
      cached_effective_connection_method_def try_cached_method_def try_cache_method_def
      get_effective_connection_method_def uncached_world_def example_world_def ai_svc_def)

lemma resolve_stale_down:
  "cached_registry_error env = None
   \<Longrightarrow> resolve_service env (stale_down_world [False, False, True]) ''ai_svc''
         = (Inr (ai_svc, True, ROUTER), stale_down_world [True])"
  by (simp add: resolve_service_def get_service_by_name_def should_use_router_def
      cached_effective_connection_method_def try_cached_method_def
      get_cached_connection_method_def redis_get_def live_value_def next_fault_def
      consume_fault_def ConnectionMethod_of_def stale_down_world_def example_world_def
      ai_svc_def)

lemma missing_method_module:
  "fst (get_router_module missing_method_env (example_world []) ai_svc) = Inr health_only_module"
  "health_only_module ''summarize'' = None"
  by (simp_all add: get_router_module_def example_world_def ai_svc_def missing_method_env_def
      health_only_module_def)

lemma answered_rest_call:
  "http_post env = (\<lambda>url args. Response 200 (Inr (PyStr ''summary'')))
   \<Longrightarrow> fst (call_via_rest env w ai_svc ''summarize'' []) = Inr (PyStr ''summary'')"
  by (simp add: call_via_rest_def ai_svc_def Let_def)

lemma refused_rest_call:
  "fst (call_via_rest failing_env w ai_svc ''summarize'' [])
     = Inl (OtherError ''connection refused'')"
  by (simp add: call_via_rest_def ai_svc_def failing_env_def Let_def)

subsection \<open>Total failure\<close>

text \<open>
  Claim C4, as stated, fails on the code: when the router attempt and the REST attempt
  both fail, the list of attempted methods carried by the error is
  \<^verbatim>\<open>["router", "rest"]\<close>, the code's names of the two modes, not \<^verbatim>\<open>["local", "remote"]\<close>.
\<close>

theorem total_failure_counterexample:
  "fst (execute_service_call failing_env (example_world []) ''ai_svc'' ''summarize'' [])
     = Inl (ServiceUnavailableError ''ai_svc'' [''router'', ''rest''])
   \<and> ServiceUnavailableError ''ai_svc'' [''router'', ''rest'']
       \<noteq> ServiceUnavailableError ''ai_svc'' [''local'', ''remote'']"
proof -
  have res: "resolve_service failing_env (example_world []) ''ai_svc''
               = (Inr (ai_svc, True, ROUTER), example_world [])"
    by (rule resolve_example) (simp add: failing_env_def)
  have loc: "fst (call_via_router failing_env (example_world []) ai_svc ''summarize'' [])
               = Inl (OtherError ''boom'')"
    by (rule raising_router_call) (simp add: failing_env_def)
  have "fst (execute_service_call failing_env (example_world []) ''ai_svc'' ''summarize'' [])
          = Inl (ServiceUnavailableError ''ai_svc'' [''router'', ''rest''])"
    using execute_both_fail [OF res _ loc _ refused_rest_call] by (simp add: ai_svc_facts)
  then show ?thesis by simp
qed

text \<open>
  Claim C4, amended. For every call on which both the Local (router) attempt and the Remote
  (REST) attempt are made and fail, the call raises \<^verbatim>\<open>ServiceUnavailableError\<close> for the
  service with the attempted-methods list exactly \<^verbatim>\<open>["router", "rest"]\<close>; it returns no
  value. The health of the service is then recorded as \<^verbatim>\<open>down\<close>.
\<close>

theorem total_failure_raises_unavailable:
  assumes res: "resolve_service env w n = (Inr (service, use_router, eff), w1)"
    and local_attempted: "use_router \<and> has_router service"
    and local_fails: "fst (call_via_router env w1 service m args) = Inl e1"
    and remote_attempted: "truthy (rest_url service) \<and> eff \<noteq> DISABLED"
    and remote_fails: "fst (call_via_rest env w1 service m args) = Inl e2"
  shows "fst (execute_service_call env w n m args)
           = Inl (ServiceUnavailableError n [''router'', ''rest''])
       \<and> map_option health_status (db (snd (execute_service_call env w n m args)) n)
           = Some ''down''"
  using assms by (rule execute_both_fail)

theorem total_failure_raises_unavailable_witness:
  "fst (execute_service_call failing_env (example_world []) ''ai_svc'' ''summarize'' [])
     = Inl (ServiceUnavailableError ''ai_svc'' [''router'', ''rest''])
   \<and> map_option health_status
        (db (snd (execute_service_call failing_env (example_world []) ''ai_svc'' ''summarize'' []))
            ''ai_svc'') = Some ''down''"
proof -
  have res: "resolve_service failing_env (example_world []) ''ai_svc''
               = (Inr (ai_svc, True, ROUTER), example_world [])"
    by (rule resolve_example) (simp add: failing_env_def)
  have la: "True \<and> has_router ai_svc" by (simp add: ai_svc_facts)
  have loc: "fst (call_via_router failing_env (example_world []) ai_svc ''summarize'' [])
               = Inl (OtherError ''boom'')"
    by (rule raising_router_call) (simp add: failing_env_def)
  have ra: "truthy (rest_url ai_svc) \<and> ROUTER \<noteq> DISABLED" by (simp add: ai_svc_facts)
  show ?thesis
    using total_failure_raises_unavailable [OF res la loc ra refused_rest_call] .
qed

subsection \<open>Fallback\<close>

text \<open>
  After a failed router attempt that is followed by a successful REST attempt, the Redis
  store at the end of the call is the store as the health update left it.
\<close>

lemma fallback_call_store:
  assumes res: "resolve_service env w n = (Inr (service, True, eff), w1)"
    and router: "has_router service"
    and local_fails: "fst (call_via_router env w1 service m args) = Inl e1"
    and remote: "rest_url service = Some url" "url \<noteq> []" "eff \<noteq> DISABLED"
    and remote_ok: "fst (call_via_rest env w1 service m args) = Inr v"
    and unwritten: "\<not> (redis_available w \<and> redis_client w \<and> \<not> next_fault w1)"
  shows "fst (execute_service_call env w n m args) = Inr v
       \<and> redis (snd (execute_service_call env w n m args)) = redis w1"
proof -
  from execute_after_router_failure [OF res _ router local_fails] unwritten obtain w3 where
    a: "execute_service_call env w n m args = rest_attempt env w3 n service eff [''router''] m args"
       "redis w3 = redis w1"
    by auto
  have "execute_service_call env w n m args = (Inr v, emit w3 (HttpPost (endpoint_url url m)))"
    using a(1) rest_attempt_success [OF remote remote_ok, of w3 n "[''router'']"] by simp
  then show ?thesis
    using a(2) by (simp add: emit_def)
qed

text \<open>
  Claim C5, as stated, fails on the code in its parenthesis: the health \<^verbatim>\<open>degraded\<close> is
  not always written to the cache. With the cache switched off the call returns the REST
  result and no health snapshot exists in the store. With the cache in use and a snapshot
  \<^verbatim>\<open>down\<close> in it, when the Redis server refuses the \<^verbatim>\<open>SETEX\<close> of the health write (the third
  command of the call, after the two \<^verbatim>\<open>GET\<close>s of the lookups), the call returns the REST
  result, the registry row is \<^verbatim>\<open>degraded\<close>, and the cached health is still \<^verbatim>\<open>down\<close>.
\<close>

theorem local_failure_cache_counterexample:
  "fst (execute_service_call fallback_env uncached_world ''ai_svc'' ''summarize'' [])
     = Inr (PyStr ''summary'')
   \<and> redis (snd (execute_service_call fallback_env uncached_world ''ai_svc'' ''summarize'' []))
        (health_key ''ai_svc'') = None
   \<and> fst (execute_service_call fallback_env (stale_down_world [False, False, True]) ''ai_svc''
            ''summarize'' []) = Inr (PyStr ''summary'')
   \<and> redis (snd (execute_service_call fallback_env (stale_down_world [False, False, True])
                   ''ai_svc'' ''summarize'' []))
        (health_key ''ai_svc'') = Some (HealthData ''down'' 0, 60)"
proof -
  have env: "cached_registry_error fallback_env = None"
    "import_module fallback_env = (\<lambda>path. Inr raising_module)"
    "http_post fallback_env = (\<lambda>url args. Response 200 (Inr (PyStr ''summary'')))"
    by (simp_all add: fallback_env_def)
  have rest: "fst (call_via_rest fallback_env w ai_svc ''summarize'' []) = Inr (PyStr ''summary'')"
    for w
    by (rule answered_rest_call) (rule env(3))
  have u1: "fst (call_via_router fallback_env uncached_world ai_svc ''summarize'' [])
              = Inl (OtherError ''boom'')"
    by (rule raising_router_call_uncached [OF env(2)])
      (simp add: uncached_world_def example_world_def)
  have u2: "\<not> (redis_available uncached_world \<and> redis_client uncached_world
                \<and> \<not> next_fault uncached_world)"
    by (simp add: uncached_world_def)
  have u: "fst (execute_service_call fallback_env uncached_world ''ai_svc'' ''summarize'' [])
             = Inr (PyStr ''summary'')
           \<and> redis (snd (execute_service_call fallback_env uncached_world ''ai_svc''
                           ''summarize'' []))
               = redis uncached_world"
    using fallback_call_store [OF resolve_uncached [OF env(1)] ai_svc_facts(1) u1
        ai_svc_facts(2) _ _ rest u2]
    by simp
  have s1: "fst (call_via_router fallback_env (stale_down_world [True]) ai_svc ''summarize'' [])
              = Inl (OtherError ''boom'')"
    by (rule raising_router_call_uncached [OF env(2)])
      (simp add: stale_down_world_def example_world_def)
  have s2: "\<not> (redis_available (stale_down_world [False, False, True])
                \<and> redis_client (stale_down_world [False, False, True])
                \<and> \<not> next_fault (stale_down_world [True]))"
    by (simp add: stale_down_world_def example_world_def next_fault_def)
  have s: "fst (execute_service_call fallback_env (stale_down_world [False, False, True])
                  ''ai_svc'' ''summarize'' []) = Inr (PyStr ''summary'')
           \<and> redis (snd (execute_service_call fallback_env (stale_down_world [False, False, True])
                           ''ai_svc'' ''summarize'' []))
               = redis (stale_down_world [True])"
    using fallback_call_store [OF resolve_stale_down [OF env(1)] ai_svc_facts(1) s1
        ai_svc_facts(2) _ _ rest s2]
    by simp
  show ?thesis
    using u s
    by (simp add: uncached_world_def stale_down_world_def example_world_def)
qed

text \<open>
  Claim C5, amended. For every call on a service whose Local (router) attempt raises while
  the Remote (REST) attempt succeeds with \<open>v\<close>: the call returns \<open>v\<close>; the REST request is
  sent from a state \<open>w3\<close> in which the registry row of the service already has the health
  \<^verbatim>\<open>degraded\<close>; in that state the cached health snapshot is \<^verbatim>\<open>degraded\<close> with the TTL of 60
  whenever the cache is in use and Redis takes the \<^verbatim>\<open>SETEX\<close>, and otherwise the Redis store
  is as it was before the health write; the events of the call up to the request are the
  failure line and the health update to \<^verbatim>\<open>degraded\<close>, besides warnings and the router call
  itself; and no health update to \<^verbatim>\<open>down\<close> happens during the call.
\<close>

theorem local_failure_falls_back_degraded:
  assumes res: "resolve_service env w n = (Inr (service, use_router, eff), w1)"
    and local_attempted: "use_router \<and> has_router service"
    and local_fails: "fst (call_via_router env w1 service m args) = Inl e1"
    and remote_attempted: "rest_url service = Some url \<and> url \<noteq> [] \<and> eff \<noteq> DISABLED"
    and remote_ok: "fst (call_via_rest env w1 service m args) = Inr v"
  shows "\<exists>w3 rc lw new.
           execute_service_call env w n m args = (Inr v, emit w3 (HttpPost (endpoint_url url m)))
           \<and> db w3 n = Some (service\<lparr>health_status := ''degraded'',
                                      last_health_check := Some (clock w)\<rparr>)
           \<and> (redis_available w \<and> redis_client w \<and> \<not> next_fault w1
                \<longrightarrow> redis w3 (health_key n)
                      = Some (HealthData ''degraded'' (clock w), clock w + HEALTH_CACHE_TTL))
           \<and> (redis w3 (health_key n) = redis w1 (health_key n)
                \<or> redis w3 (health_key n)
                    = Some (HealthData ''degraded'' (clock w), clock w + HEALTH_CACHE_TTL))
           \<and> (\<not> (redis_available w \<and> redis_client w \<and> \<not> next_fault w1)
                \<longrightarrow> redis w3 = redis w1)
           \<and> trace w3 = trace w1 @ rc @ [router_failed_line n m e1, DbHealthUpdate n ''degraded'']
                         @ lw
           \<and> set rc \<subseteq> {RouterCall (name service) m} \<and> list_all is_warning lw
           \<and> trace (emit w3 (HttpPost (endpoint_url url m))) = trace w @ new
           \<and> DbHealthUpdate n ''down'' \<notin> set new"
proof -
  from execute_after_router_failure [OF res _ _ local_fails] local_attempted
  obtain w3 rc lw where
    a: "execute_service_call env w n m args = rest_attempt env w3 n service eff [''router''] m args"
       "db w3 = (db w)(n \<mapsto> service\<lparr>health_status := ''degraded'',
                                         last_health_check := Some (clock w)\<rparr>)"
       "trace w3 = trace w1 @ rc @ [router_failed_line n m e1, DbHealthUpdate n ''degraded''] @ lw"
       "set rc \<subseteq> {RouterCall (name service) m}" "list_all is_warning lw"
       "redis_available w \<and> redis_client w \<and> \<not> next_fault w1
          \<longrightarrow> redis w3 (health_key n)
                = Some (HealthData ''degraded'' (clock w), clock w + HEALTH_CACHE_TTL)"
       "redis w3 (health_key n) = redis w1 (health_key n)
        \<or> redis w3 (health_key n)
            = Some (HealthData ''degraded'' (clock w), clock w + HEALTH_CACHE_TTL)"
       "\<not> (redis_available w \<and> redis_client w \<and> \<not> next_fault w1) \<longrightarrow> redis w3 = redis w1"
    by blast
  have b: "execute_service_call env w n m args
             = (Inr v, emit w3 (HttpPost (endpoint_url url m)))"
    using a(1) rest_attempt_success [OF _ _ _ remote_ok, of url eff w3 n "[''router'']"]
      remote_attempted by simp
  from resolve_service_ok [OF res] obtain evs0 where
    e0: "trace w1 = trace w @ evs0" "list_all is_warning evs0"
    by (auto simp: only_warnings_def)
  let ?new = "evs0 @ rc @ [router_failed_line n m e1, DbHealthUpdate n ''degraded''] @ lw
              @ [HttpPost (endpoint_url url m)]"
  have c: "trace (emit w3 (HttpPost (endpoint_url url m))) = trace w @ ?new"
    using a(3) e0(1) by (simp add: emit_def)
  have w0: "DbHealthUpdate n ''down'' \<notin> set evs0" "DbHealthUpdate n ''down'' \<notin> set lw"
    using e0(2) a(5) is_warning_health_update(1) [of n "''down''"]
    by (auto simp: list_all_iff)
  have d: "DbHealthUpdate n ''down'' \<notin> set ?new"
    using w0 a(4) by (auto simp: router_failed_line_def)
  have row: "db w3 n = Some (service\<lparr>health_status := ''degraded'',
                                     last_health_check := Some (clock w)\<rparr>)"
    using a(2) by simp
  show ?thesis
    by (rule exI [of _ w3], rule exI [of _ rc], rule exI [of _ lw], rule exI [of _ ?new])
      (use b row a(3,4,5,6,7,8) c d in blast)
qed

theorem local_failure_falls_back_degraded_witness:
  "fst (execute_service_call fallback_env (example_world []) ''ai_svc'' ''summarize'' [])
     = Inr (PyStr ''summary'')
   \<and> map_option health_status
        (db (snd (execute_service_call fallback_env (example_world []) ''ai_svc'' ''summarize''
                    []))
            ''ai_svc'') = Some ''degraded''
   \<and> redis (snd (execute_service_call fallback_env (example_world []) ''ai_svc'' ''summarize''
                   []))
        (health_key ''ai_svc'') = Some (HealthData ''degraded'' 0, 60)"
proof -
  have res: "resolve_service fallback_env (example_world []) ''ai_svc''
               = (Inr (ai_svc, True, ROUTER), example_world [])"
    by (rule resolve_example) (simp add: fallback_env_def)
  have la: "True \<and> has_router ai_svc" by (simp add: ai_svc_facts)
  have loc: "fst (call_via_router fallback_env (example_world []) ai_svc ''summarize'' [])
               = Inl (OtherError ''boom'')"
    by (rule raising_router_call) (simp add: fallback_env_def)
  have ra: "rest_url ai_svc = Some ''http://localhost:8005/'' \<and> ''http://localhost:8005/'' \<noteq> []
            \<and> ROUTER \<noteq> DISABLED"
    by (simp add: ai_svc_facts)
  have ok: "fst (call_via_rest fallback_env (example_world []) ai_svc ''summarize'' [])
              = Inr (PyStr ''summary'')"
    by (rule answered_rest_call) (simp add: fallback_env_def)
  from local_failure_falls_back_degraded [OF res la loc ra ok] obtain w3 where
    "execute_service_call fallback_env (example_world []) ''ai_svc'' ''summarize'' []
       = (Inr (PyStr ''summary''), emit w3 (HttpPost (endpoint_url ''http://localhost:8005/''
                                                        ''summarize'')))"
    "db w3 ''ai_svc'' = Some (ai_svc\<lparr>health_status := ''degraded'',
                                      last_health_check := Some (clock (example_world []))\<rparr>)"
    "redis_available (example_world []) \<and> redis_client (example_world [])
       \<and> \<not> next_fault (example_world [])
     \<longrightarrow> redis w3 (health_key ''ai_svc'')
           = Some (HealthData ''degraded'' (clock (example_world [])),
                   clock (example_world []) + HEALTH_CACHE_TTL)"
    by blast
  then show ?thesis
    by (simp add: example_world_facts emit_def HEALTH_CACHE_TTL_def)
qed

subsection \<open>A method that the router lacks\<close>

text \<open>
  Claim C9, as stated, fails on the code: the router module of the service has no method
  \<^verbatim>\<open>summarize\<close>, the router attempt raises \<^verbatim>\<open>AttributeError\<close>, and the call is then retried
  over REST: the request is sent and its answer is returned.
\<close>

theorem missing_method_counterexample:
  "fst (call_via_router missing_method_env (example_world []) ai_svc ''summarize'' [])
     = Inl (method_not_on_router ai_svc ''summarize'')
   \<and> fst (execute_service_call missing_method_env (example_world []) ''ai_svc'' ''summarize'' [])
       = Inr (PyStr ''summary'')
   \<and> HttpPost ''http://localhost:8005/summarize''
       \<in> set (trace (snd (execute_service_call missing_method_env (example_world []) ''ai_svc''
                              ''summarize'' [])))"
proof -
  have res: "resolve_service missing_method_env (example_world []) ''ai_svc''
               = (Inr (ai_svc, True, ROUTER), example_world [])"
    by (rule resolve_example) (simp add: missing_method_env_def)
  have loc: "fst (call_via_router missing_method_env (example_world []) ai_svc ''summarize'' [])
               = Inl (method_not_on_router ai_svc ''summarize'')"
    using missing_method_module
    by (cases "get_router_module missing_method_env (example_world []) ai_svc")
      (simp add: call_via_router_def)
  have ok: "fst (call_via_rest missing_method_env (example_world []) ai_svc ''summarize'' [])
              = Inr (PyStr ''summary'')"
    by (rule answered_rest_call) (simp add: missing_method_env_def)
  from execute_after_router_failure [OF res _ _ loc] obtain w3 where
    a: "execute_service_call missing_method_env (example_world []) ''ai_svc'' ''summarize'' []
          = rest_attempt missing_method_env w3 ''ai_svc'' ai_svc ROUTER [''router''] ''summarize''
              []"
    by (auto simp: ai_svc_facts)
  have "execute_service_call missing_method_env (example_world []) ''ai_svc'' ''summarize'' []
          = (Inr (PyStr ''summary''),
             emit w3 (HttpPost (endpoint_url ''http://localhost:8005/'' ''summarize'')))"
    using a rest_attempt_success [OF ai_svc_facts(2) _ _ ok, of ROUTER w3 "''ai_svc''"
        "[''router'']"]
    by simp
  then show ?thesis
    using loc by (simp add: emit_def ai_svc_facts)
qed

text \<open>
  Claim C9, amended. For every Local-mode call whose method does not exist on the local
  target (the router module is there and lacks the method), the Local attempt fails with
  an \<^verbatim>\<open>AttributeError\<close> that names the method, and the proxy treats it as it treats every
  failure of the Local attempt: it records the health \<^verbatim>\<open>degraded\<close> and goes on to the Remote
  attempt. When a remote address is set and the effective mode is not Disabled the request
  is sent, and the call returns its result or fails with \<^verbatim>\<open>ServiceUnavailableError\<close> for
  \<^verbatim>\<open>["router", "rest"]\<close>; otherwise the call fails with \<^verbatim>\<open>ServiceUnavailableError\<close> for
  \<^verbatim>\<open>["router"]\<close>.
\<close>

theorem missing_method_falls_back:
  assumes res: "resolve_service env w n = (Inr (service, use_router, eff), w1)"
    and local_attempted: "use_router \<and> has_router service"
    and module: "fst (get_router_module env w1 service) = Inr md"
    and missing: "md m = None"
  shows "fst (call_via_router env w1 service m args) = Inl (method_not_on_router service m)
       \<and> (\<exists>msg. method_not_on_router service m = AttributeError msg)
       \<and> (\<exists>w3. execute_service_call env w n m args
                  = rest_attempt env w3 n service eff [''router''] m args
                \<and> map_option health_status (db w3 n) = Some ''degraded'')
       \<and> (\<forall>url v. rest_url service = Some url \<and> url \<noteq> [] \<and> eff \<noteq> DISABLED
                   \<and> fst (call_via_rest env w1 service m args) = Inr v
              \<longrightarrow> fst (execute_service_call env w n m args) = Inr v
                  \<and> HttpPost (endpoint_url url m)
                      \<in> set (trace (snd (execute_service_call env w n m args))))
       \<and> (\<forall>url e2. rest_url service = Some url \<and> url \<noteq> [] \<and> eff \<noteq> DISABLED
                   \<and> fst (call_via_rest env w1 service m args) = Inl e2
              \<longrightarrow> fst (execute_service_call env w n m args)
                    = Inl (ServiceUnavailableError n [''router'', ''rest''])
                  \<and> HttpPost (endpoint_url url m)
                      \<in> set (trace (snd (execute_service_call env w n m args))))
       \<and> (\<not> (truthy (rest_url service) \<and> eff \<noteq> DISABLED)
              \<longrightarrow> fst (execute_service_call env w n m args)
                    = Inl (ServiceUnavailableError n [''router'']))"
proof -
  have loc: "fst (call_via_router env w1 service m args) = Inl (method_not_on_router service m)"
    using module missing
    by (cases "get_router_module env w1 service") (simp add: call_via_router_def)
  have attr: "\<exists>msg. method_not_on_router service m = AttributeError msg"
    by (simp add: method_not_on_router_def)
  from execute_after_router_failure [OF res _ _ loc] local_attempted obtain w3 where
    a: "execute_service_call env w n m args = rest_attempt env w3 n service eff [''router''] m args"
       "db w3 = (db w)(n \<mapsto> service\<lparr>health_status := ''degraded'',
                                         last_health_check := Some (clock w)\<rparr>)"
       "db_configured w3"
    by blast
  have row: "db w3 n = Some (service\<lparr>health_status := ''degraded'',
                                     last_health_check := Some (clock w)\<rparr>)"
    using a(2) by simp
  have deg: "map_option health_status (db w3 n) = Some ''degraded''"
    using row by simp
  have ok: "fst (execute_service_call env w n m args) = Inr v
            \<and> HttpPost (endpoint_url url m)
                \<in> set (trace (snd (execute_service_call env w n m args)))"
    if "rest_url service = Some url \<and> url \<noteq> [] \<and> eff \<noteq> DISABLED
        \<and> fst (call_via_rest env w1 service m args) = Inr v" for url v
    using that a(1) rest_attempt_success [of service url eff env w1 m args v w3 n "[''router'']"]
    by (simp add: emit_def)
  have ko: "fst (execute_service_call env w n m args)
              = Inl (ServiceUnavailableError n [''router'', ''rest''])
            \<and> HttpPost (endpoint_url url m)
                \<in> set (trace (snd (execute_service_call env w n m args)))"
    if h: "rest_url service = Some url \<and> url \<noteq> [] \<and> eff \<noteq> DISABLED
        \<and> fst (call_via_rest env w1 service m args) = Inl e2" for url e2
  proof -
    from rest_attempt_failure [of service url eff env w1 m args e2 w3 n _ "[''router'']"]
      h a(3) row
    obtain w5 where
      "rest_attempt env w3 n service eff [''router''] m args
         = (Inl (ServiceUnavailableError n ([''router''] @ [''rest''])), w5)"
      "HttpPost (endpoint_url url m) \<in> set (trace w5)"
      by blast
    then show ?thesis using a(1) by simp
  qed
  have skip: "fst (execute_service_call env w n m args)
                = Inl (ServiceUnavailableError n [''router''])"
    if "\<not> (truthy (rest_url service) \<and> eff \<noteq> DISABLED)"
    using a(1) rest_attempt_skipped [OF that] by simp
  show ?thesis
    using loc attr a(1) deg ok ko skip by blast
qed

theorem missing_method_falls_back_witness:
  "fst (call_via_router missing_method_env (example_world []) ai_svc ''summarize'' [PyStr ''text''])
     = Inl (method_not_on_router ai_svc ''summarize'')
   \<and> fst (execute_service_call missing_method_env (example_world []) ''ai_svc'' ''summarize''
            [PyStr ''text'']) = Inr (PyStr ''summary'')"
proof -
  have res: "resolve_service missing_method_env (example_world []) ''ai_svc''
               = (Inr (ai_svc, True, ROUTER), example_world [])"
    by (rule resolve_example) (simp add: missing_method_env_def)
  have la: "True \<and> has_router ai_svc" by (simp add: ai_svc_facts)
  have ok: "rest_url ai_svc = Some ''http://localhost:8005/'' \<and> ''http://localhost:8005/'' \<noteq> []
            \<and> ROUTER \<noteq> DISABLED
            \<and> fst (call_via_rest missing_method_env (example_world []) ai_svc ''summarize''
                     [PyStr ''text'']) = Inr (PyStr ''summary'')"
    by (simp add: ai_svc_facts call_via_rest_def missing_method_env_def Let_def)
  show ?thesis
    using missing_method_falls_back [OF res la missing_method_module, of "[PyStr ''text'']"] ok
    by blast
qed

end
